theory Spec2Isabelle
  imports Main
begin

section \<open>JavaScript values\<close>

text \<open>
  The tasks of the application are plain JavaScript objects that travel as JSON between
  the browser (\<^verbatim>\<open>storage.js\<close>, \<^verbatim>\<open>calendar.js\<close>), the server's in-memory store (the
  \<^verbatim>\<open>Todo\<close> class) and \<^verbatim>\<open>localStorage\<close>. A property value is a JSON scalar; numbers are
  the integers (task ids are the only numbers of the program). The value \<^verbatim>\<open>undefined\<close>
  is \<open>None\<close> of \<open>jv option\<close>, and a property holding \<^verbatim>\<open>undefined\<close> is an absent property,
  as it is after \<^verbatim>\<open>JSON.stringify\<close>.
\<close>

datatype jv = JNull | JBool bool | JNum int | JStr string

text \<open>
  An object is the list of its members, in order. As \<^verbatim>\<open>JSON.parse\<close> reads a text, the
  last member of a name gives the property its value.
\<close>

type_synonym obj = "(string \<times> jv) list"

definition get_prop :: "obj \<Rightarrow> string \<Rightarrow> jv option" where
  "get_prop ob k = map_of (rev ob) k"

text \<open>\<^verbatim>\<open>ob[k] = v\<close>: an existing property keeps its place, a new one is appended.\<close>

definition set_prop :: "obj \<Rightarrow> string \<Rightarrow> jv \<Rightarrow> obj" where
  "set_prop ob k v =
     (if k \<in> fst ` set ob then map (\<lambda>p. if fst p = k then (k, v) else p) ob
      else ob @ [(k, v)])"

text \<open>\<^verbatim>\<open>delete ob[k]\<close>.\<close>

definition delete_prop :: "obj \<Rightarrow> string \<Rightarrow> obj" where
  "delete_prop ob k = filter (\<lambda>p. fst p \<noteq> k) ob"

text \<open>\<^verbatim>\<open>{...a, ...b}\<close>: the properties of \<open>b\<close> are assigned, in order, onto a copy of \<open>a\<close>.\<close>

definition spread :: "obj \<Rightarrow> obj \<Rightarrow> obj" where
  "spread a b = fold (\<lambda>p ob. set_prop ob (fst p) (snd p)) b a"

text \<open>Truthiness, as \<^verbatim>\<open>if (x)\<close> and \<^verbatim>\<open>!x\<close> read a value.\<close>

fun truthy :: "jv option \<Rightarrow> bool" where
  "truthy None = False"
| "truthy (Some JNull) = False"
| "truthy (Some (JBool b)) = b"
| "truthy (Some (JNum n)) = (n \<noteq> 0)"
| "truthy (Some (JStr s)) = (s \<noteq> [])"

text \<open>A default parameter value replaces \<^verbatim>\<open>undefined\<close> only.\<close>

definition default_arg :: "jv option \<Rightarrow> jv \<Rightarrow> jv" where
  "default_arg a d = (case a of None \<Rightarrow> d | Some v \<Rightarrow> v)"

subsection \<open>Numbers and strings\<close>

text \<open>
  \<^verbatim>\<open>String(n)\<close> for an integer: its decimal digits, with a minus sign below zero
  (JavaScript writes integers this way up to 21 digits).
\<close>

definition digit_char :: "nat \<Rightarrow> char" where
  "digit_char d = char_of (48 + d)"

fun digits :: "nat \<Rightarrow> string" where
  "digits n = (if n < 10 then [digit_char n] else digits (n div 10) @ [digit_char (n mod 10)])"

declare digits.simps [simp del]

definition String_of_int :: "int \<Rightarrow> string" where
  "String_of_int n = (if n < 0 then CHR ''-'' # digits (nat (- n)) else digits (nat n))"

text \<open>\<^verbatim>\<open>s.padStart(n, '0')\<close>.\<close>

definition padStart0 :: "nat \<Rightarrow> string \<Rightarrow> string" where
  "padStart0 n s = replicate (n - length s) CHR ''0'' @ s"

text \<open>
  A value inside a template literal, as in \<^verbatim>\<open>`${API_URL}/${taskId}`\<close>.
\<close>

fun String_of :: "jv \<Rightarrow> string" where
  "String_of JNull = ''null''"
| "String_of (JBool b) = (if b then ''true'' else ''false'')"
| "String_of (JNum n) = String_of_int n"
| "String_of (JStr s) = s"

text \<open>
  \<^verbatim>\<open>parseInt(s)\<close> with no radix: leading (ASCII) white space is skipped, a sign is read, a
  \<^verbatim>\<open>0x\<close> prefix selects base 16, and the longest prefix of digits is the result;
  \<open>None\<close> is \<^verbatim>\<open>NaN\<close> (no digit at all).
\<close>

definition is_space :: "char \<Rightarrow> bool" where
  "is_space c = (c \<in> set [CHR '' '', CHR 0x09, CHR 0x0A, CHR 0x0B, CHR 0x0C, CHR 0x0D])"

definition digit_val :: "char \<Rightarrow> nat option" where
  "digit_val c =
     (let n = of_char c :: nat in
      if 48 \<le> n \<and> n \<le> 57 then Some (n - 48)
      else if 97 \<le> n \<and> n \<le> 122 then Some (n - 87)
      else if 65 \<le> n \<and> n \<le> 90 then Some (n - 55)
      else None)"

fun read_digits :: "nat \<Rightarrow> nat option \<Rightarrow> string \<Rightarrow> nat option" where
  "read_digits radix acc [] = acc"
| "read_digits radix acc (c # cs) =
     (case digit_val c of
        None \<Rightarrow> acc
      | Some d \<Rightarrow>
          if d < radix
          then read_digits radix (Some ((case acc of None \<Rightarrow> 0 | Some a \<Rightarrow> a) * radix + d)) cs
          else acc)"

fun strip_sign :: "string \<Rightarrow> bool \<times> string" where
  "strip_sign (c # cs) =
     (if c = CHR ''-'' then (True, cs) else if c = CHR ''+'' then (False, cs) else (False, c # cs))"
| "strip_sign [] = (False, [])"

fun strip_hex :: "string \<Rightarrow> nat \<times> string" where
  "strip_hex (a # b # cs) =
     (if a = CHR ''0'' \<and> (b = CHR ''x'' \<or> b = CHR ''X'') then (16, cs) else (10, a # b # cs))"
| "strip_hex cs = (10, cs)"

definition parseInt :: "string \<Rightarrow> int option" where
  "parseInt s =
     (let (neg, s1) = strip_sign (dropWhile is_space s);
          (radix, s2) = strip_hex s1
      in case read_digits radix None s2 of
           None \<Rightarrow> None
         | Some n \<Rightarrow> Some (if neg then - int n else int n))"

section \<open>Dates\<close>

text \<open>
  A \<^verbatim>\<open>Date\<close> is its time value, the milliseconds since 1 January 1970 UTC. The
  functions below are the ones ECMAScript defines for the time value (\<open>Day\<close>,
  \<open>DayFromYear\<close>, \<open>YearFromTime\<close>, \<open>MonthFromTime\<close>, \<open>DateFromTime\<close>, \<open>WeekDay\<close>,
  \<open>MakeDay\<close>). Two things are assumed of the environment: the local time zone is UTC
  with no daylight saving, and a time value is any integer (the limit of 100 000 000 days
  around the epoch is not modelled).
\<close>

definition msPerDay :: int where
  "msPerDay = 86400000"

definition Day :: "int \<Rightarrow> int" where
  "Day t = t div msPerDay"

definition DaysInYear :: "int \<Rightarrow> int" where
  "DaysInYear y =
     (if y mod 4 \<noteq> 0 then 365 else if y mod 100 \<noteq> 0 then 366
      else if y mod 400 \<noteq> 0 then 365 else 366)"

definition DayFromYear :: "int \<Rightarrow> int" where
  "DayFromYear y =
     365 * (y - 1970) + (y - 1969) div 4 - (y - 1901) div 100 + (y - 1601) div 400"

text \<open>
  \<open>DayFromYear\<close> grows by \<open>DaysInYear\<close> from one year to the next; the search for the
  year of a day, below, ends because of it.
\<close>

lemma div_step:
  fixes x k :: int
  assumes k: "0 < k"
  shows "(x + 1) div k = x div k + (if (x + 1) mod k = 0 then 1 else 0)"
proof -
  define q where "q = x div k"
  define r where "r = x mod k"
  have eq: "x = k * q + r" by (simp add: q_def r_def)
  have r: "0 \<le> r" "r < k" using k by (simp_all add: r_def)
  show ?thesis
  proof (cases "r + 1 = k")
    case True
    have e: "x + 1 = k * (q + 1) + 0" using eq True by (simp add: distrib_left)
    have "(x + 1) div k = q + 1" by (rule int_div_pos_eq [OF e]) (use k in simp_all)
    moreover have "(x + 1) mod k = 0" by (rule int_mod_pos_eq [OF e]) (use k in simp_all)
    ultimately show ?thesis by (simp add: q_def)
  next
    case False
    have e: "x + 1 = k * q + (r + 1)" using eq by simp
    have b: "0 \<le> r + 1" "r + 1 < k" using r False by simp_all
    have "(x + 1) div k = q" by (rule int_div_pos_eq [OF e b])
    moreover have "(x + 1) mod k = r + 1" by (rule int_mod_pos_eq [OF e b])
    ultimately show ?thesis using r by (simp add: q_def)
  qed
qed

lemma mod_shift: "(y - c * k) mod k = y mod k" for y c k :: int
  using mod_mult_self1 [of "y - c * k" c k] by simp

lemma mod_100_4: "y mod 4 = 0" if "y mod 100 = 0" for y :: int
proof -
  have "y mod 4 = y mod 100 mod 4" by (simp add: mod_mod_cancel)
  then show ?thesis using that by simp
qed

lemma mod_400_100: "y mod 100 = 0" if "y mod 400 = 0" for y :: int
proof -
  have "y mod 100 = y mod 400 mod 100" by (simp add: mod_mod_cancel)
  then show ?thesis using that by simp
qed

lemma DayFromYear_Suc: "DayFromYear (y + 1) = DayFromYear y + DaysInYear y"
proof -
  have m4: "(y - 1969 + 1) mod 4 = y mod 4" using mod_shift [of y 492 4] by simp
  have m100: "(y - 1901 + 1) mod 100 = y mod 100" using mod_shift [of y 19 100] by simp
  have m400: "(y - 1601 + 1) mod 400 = y mod 400" using mod_shift [of y 4 400] by simp
  have a: "(y + 1 - 1969) div 4 = (y - 1969) div 4 + (if y mod 4 = 0 then 1 else 0)"
    using div_step [of 4 "y - 1969"] m4 by (simp add: algebra_simps)
  have b: "(y + 1 - 1901) div 100 = (y - 1901) div 100 + (if y mod 100 = 0 then 1 else 0)"
    using div_step [of 100 "y - 1901"] m100 by (simp add: algebra_simps)
  have c: "(y + 1 - 1601) div 400 = (y - 1601) div 400 + (if y mod 400 = 0 then 1 else 0)"
    using div_step [of 400 "y - 1601"] m400 by (simp add: algebra_simps)
  show ?thesis
    unfolding DayFromYear_def DaysInYear_def a b c
    using mod_100_4 [of y] mod_400_100 [of y] by auto
qed

lemma DayFromYear_pred: "DayFromYear (y - 1) < DayFromYear y"
  using DayFromYear_Suc [of "y - 1"] by (simp add: DaysInYear_def split: if_splits)

text \<open>
  ECMAScript's \<open>YearFromTime\<close> is the largest year whose first day is not after the
  day. \<open>year_down\<close> finds it going down from a year that is late enough; the lemmas
  \<open>YearFromDay_bounds\<close> and \<open>YearFromDay_unique\<close> say that the result is that year.
\<close>

function year_down :: "int \<Rightarrow> int \<Rightarrow> int" where
  "year_down d y = (if DayFromYear y \<le> d then y else year_down d (y - 1))"
  by pat_completeness auto
termination
proof (relation "measure (\<lambda>(d, y). nat (DayFromYear y - d))")
  show "wf (measure (\<lambda>(d, y). nat (DayFromYear y - d)))" by simp
next
  fix d y :: int
  assume "\<not> DayFromYear y \<le> d"
  then show "((d, y - 1), (d, y)) \<in> measure (\<lambda>(d, y). nat (DayFromYear y - d))"
    using DayFromYear_pred [of y] by simp
qed


definition YearFromDay :: "int \<Rightarrow> int" where
  "YearFromDay d = year_down d (1970 + (if 0 \<le> d then d div 365 else d div 366))"

lemma DayFromYear_ge: "1970 \<le> y \<Longrightarrow> 365 * (y - 1970) \<le> DayFromYear y"
proof (induction y rule: int_ge_induct)
  case base
  show ?case by (simp add: DayFromYear_def)
next
  case (step i)
  then show ?case
    using DayFromYear_Suc [of i] by (simp add: DaysInYear_def split: if_splits)
qed

lemma DayFromYear_le: "y \<le> 1970 \<Longrightarrow> 366 * (y - 1970) \<le> DayFromYear y"
proof (induction y rule: int_le_induct)
  case base
  show ?case by (simp add: DayFromYear_def)
next
  case (step i)
  then show ?case
    using DayFromYear_Suc [of "i - 1"] by (simp add: DaysInYear_def split: if_splits)
qed

lemma DayFromYear_mono: "y \<le> z \<Longrightarrow> DayFromYear y \<le> DayFromYear z"
proof (induction z rule: int_ge_induct)
  case base
  show ?case by simp
next
  case (step i)
  then show ?case
    using DayFromYear_Suc [of i] by (simp add: DaysInYear_def split: if_splits)
qed

lemma year_down_le: "DayFromYear (year_down d y) \<le> d"
  by (induction d y rule: year_down.induct) simp

lemma year_down_gt: "d < DayFromYear (y + 1) \<Longrightarrow> d < DayFromYear (year_down d y + 1)"
proof (induction d y rule: year_down.induct)
  case (1 d y)
  show ?case
  proof (cases "DayFromYear y \<le> d")
    case True
    then show ?thesis using "1.prems" by simp
  next
    case False
    then have "d < DayFromYear (y - 1 + 1)" by simp
    from "1.IH" [OF False this] False show ?thesis by simp
  qed
qed

lemma year_estimate: "d < DayFromYear (1970 + (if 0 \<le> d then d div 365 else d div 366) + 1)"
proof (cases "0 \<le> d")
  case True
  have "d < 365 * (d div 365 + 1)" by simp
  also have "\<dots> \<le> DayFromYear (1970 + d div 365 + 1)"
    using DayFromYear_ge [of "1970 + d div 365 + 1"] True by (simp add: pos_imp_zdiv_nonneg_iff)
  finally show ?thesis using True by simp
next
  case False
  have "d < 366 * (d div 366 + 1)" by simp
  also have "\<dots> \<le> DayFromYear (1970 + d div 366 + 1)"
  proof -
    have "d div 366 < 0" using False div_neg_pos_less0 [of d 366] by simp
    then show ?thesis using DayFromYear_le [of "1970 + d div 366 + 1"] by simp
  qed
  finally show ?thesis using False by simp
qed

lemma YearFromDay_bounds:
  "DayFromYear (YearFromDay d) \<le> d" "d < DayFromYear (YearFromDay d + 1)"
  unfolding YearFromDay_def by (rule year_down_le, rule year_down_gt, rule year_estimate)

lemma YearFromDay_unique:
  assumes "DayFromYear y \<le> d" "d < DayFromYear y + DaysInYear y"
  shows "YearFromDay d = y"
proof (rule ccontr)
  assume ne: "YearFromDay d \<noteq> y"
  define z where "z = YearFromDay d"
  have b: "DayFromYear z \<le> d" "d < DayFromYear (z + 1)"
    unfolding z_def by (rule YearFromDay_bounds)+
  have u: "d < DayFromYear (y + 1)" using assms(2) by (simp add: DayFromYear_Suc)
  show False
  proof (cases "z < y")
    case True
    then have "DayFromYear (z + 1) \<le> DayFromYear y" by (intro DayFromYear_mono) simp
    then show False using b assms by simp
  next
    case False
    then have "y + 1 \<le> z" using ne z_def by simp
    then have "DayFromYear (y + 1) \<le> DayFromYear z" by (rule DayFromYear_mono)
    then show False using b u by simp
  qed
qed

declare year_down.simps [simp del]

definition YearFromTime :: "int \<Rightarrow> int" where
  "YearFromTime t = YearFromDay (Day t)"

definition InLeapYear :: "int \<Rightarrow> int" where
  "InLeapYear t = (if DaysInYear (YearFromTime t) = 366 then 1 else 0)"

definition DayWithinYear :: "int \<Rightarrow> int" where
  "DayWithinYear t = Day t - DayFromYear (YearFromTime t)"

text \<open>The day of the year on which month \<open>m\<close> (0 to 11) starts; \<open>l\<close> is 1 in a leap year.\<close>

definition month_start :: "int \<Rightarrow> int \<Rightarrow> int" where
  "month_start l m =
     (if m = 0 then 0 else if m = 1 then 31 else if m = 2 then 59 + l
      else if m = 3 then 90 + l else if m = 4 then 120 + l else if m = 5 then 151 + l
      else if m = 6 then 181 + l else if m = 7 then 212 + l else if m = 8 then 243 + l
      else if m = 9 then 273 + l else if m = 10 then 304 + l else 334 + l)"

definition MonthFromTime :: "int \<Rightarrow> int" where
  "MonthFromTime t =
     (let d = DayWithinYear t; l = InLeapYear t in
      if d < 31 then 0 else if d < 59 + l then 1 else if d < 90 + l then 2
      else if d < 120 + l then 3 else if d < 151 + l then 4 else if d < 181 + l then 5
      else if d < 212 + l then 6 else if d < 243 + l then 7 else if d < 273 + l then 8
      else if d < 304 + l then 9 else if d < 334 + l then 10 else 11)"

definition DateFromTime :: "int \<Rightarrow> int" where
  "DateFromTime t = DayWithinYear t - month_start (InLeapYear t) (MonthFromTime t) + 1"

definition WeekDay :: "int \<Rightarrow> int" where
  "WeekDay t = (Day t + 4) mod 7"

definition MakeDay :: "int \<Rightarrow> int \<Rightarrow> int \<Rightarrow> int" where
  "MakeDay year month date =
     (let ym = year + month div 12; mn = month mod 12 in
      DayFromYear ym + month_start (if DaysInYear ym = 366 then 1 else 0) mn + date - 1)"

text \<open>
  The length of month \<open>m\<close> (0 to 11) of year \<open>y\<close> in the Gregorian calendar, used to
  state what the calendar shows.
\<close>

definition leap_flag :: "int \<Rightarrow> int" where
  "leap_flag y = (if DaysInYear y = 366 then 1 else 0)"

definition days_in_month :: "int \<Rightarrow> int \<Rightarrow> int" where
  "days_in_month y m =
     (if m = 1 then 28 + leap_flag y
      else if m = 3 \<or> m = 5 \<or> m = 8 \<or> m = 10 then 30 else 31)"

text \<open>
  \<^verbatim>\<open>new Date(year, month, date)\<close>: local midnight of that day. A year from 0 to 99 is
  read as 1900 + year.
\<close>

definition Date_ymd :: "int \<Rightarrow> int \<Rightarrow> int \<Rightarrow> int" where
  "Date_ymd year month date =
     MakeDay (if 0 \<le> year \<and> year \<le> 99 then 1900 + year else year) month date * msPerDay"

definition getFullYear :: "int \<Rightarrow> int" where
  "getFullYear t = YearFromTime t"

definition getMonth :: "int \<Rightarrow> int" where
  "getMonth t = MonthFromTime t"

definition getDate :: "int \<Rightarrow> int" where
  "getDate t = DateFromTime t"

definition getDay :: "int \<Rightarrow> int" where
  "getDay t = WeekDay t"

text \<open>
  \<^verbatim>\<open>d.toISOString()\<close>: \<^verbatim>\<open>YYYY-MM-DDTHH:mm:ss.sssZ\<close>, the year with six digits and a
  sign outside 0 to 9999.
\<close>

definition pad_nat :: "nat \<Rightarrow> int \<Rightarrow> string" where
  "pad_nat n i = padStart0 n (digits (nat i))"

definition year_string :: "int \<Rightarrow> string" where
  "year_string y =
     (if 0 \<le> y \<and> y \<le> 9999 then pad_nat 4 y
      else (if y < 0 then CHR ''-'' else CHR ''+'') # pad_nat 6 (abs y))"

definition toISOString :: "int \<Rightarrow> string" where
  "toISOString t =
     year_string (YearFromTime t) @ ''-'' @ pad_nat 2 (MonthFromTime t + 1) @ ''-'' @
     pad_nat 2 (DateFromTime t) @ ''T'' @ pad_nat 2 (t div 3600000 mod 24) @ '':'' @
     pad_nat 2 (t div 60000 mod 60) @ '':'' @ pad_nat 2 (t div 1000 mod 60) @ ''.'' @
     pad_nat 3 (t mod 1000) @ ''Z''"

text \<open>
  \<^verbatim>\<open>new Date(v)\<close> for one argument; \<open>None\<close> is the invalid date. A string goes through
  the runtime's date parser, which the model takes as the parameter \<open>parse\<close>.
\<close>

fun Date_of :: "(string \<Rightarrow> int option) \<Rightarrow> jv option \<Rightarrow> int option" where
  "Date_of parse None = None"
| "Date_of parse (Some JNull) = Some 0"
| "Date_of parse (Some (JBool b)) = Some (if b then 1 else 0)"
| "Date_of parse (Some (JNum n)) = Some n"
| "Date_of parse (Some (JStr s)) = parse s"

text \<open>\<^verbatim>\<open>a > b\<close> on two dates compares their time values; an invalid date is \<^verbatim>\<open>NaN\<close>.\<close>

definition date_gt :: "int option \<Rightarrow> int option \<Rightarrow> bool" where
  "date_gt a b = (case (a, b) of (Some x, Some y) \<Rightarrow> y < x | _ \<Rightarrow> False)"

section \<open>Arrays\<close>

text \<open>\<^verbatim>\<open>xs.findIndex(p)\<close>; \<open>None\<close> is the result \<^verbatim>\<open>-1\<close>.\<close>

fun findIndex :: "('a \<Rightarrow> bool) \<Rightarrow> 'a list \<Rightarrow> nat option" where
  "findIndex p [] = None"
| "findIndex p (x # xs) = (if p x then Some 0 else map_option Suc (findIndex p xs))"

text \<open>\<^verbatim>\<open>xs.splice(i, 1)\<close>, for an index of the array.\<close>

definition splice1 :: "nat \<Rightarrow> 'a list \<Rightarrow> 'a list" where
  "splice1 i xs = take i xs @ drop (Suc i) xs"

section \<open>The task store of the server\<close>

text \<open>
  The module state of the \<^verbatim>\<open>Todo\<close> model: the array \<^verbatim>\<open>todos\<close> and the counter
  \<^verbatim>\<open>nextId\<close>. The \<^verbatim>\<open>Date\<close> that the constructor stores in \<^verbatim>\<open>createdAt\<close> is held as the
  string it becomes in every JSON answer.
\<close>

record store =
  todos :: "obj list"
  nextId :: int

definition initial_store :: store where
  "initial_store = \<lparr>todos = [], nextId = 1\<rparr>"

text \<open>A property is written only when its value is not \<^verbatim>\<open>undefined\<close>.\<close>

definition opt_prop :: "string \<Rightarrow> jv option \<Rightarrow> obj" where
  "opt_prop k v = (case v of None \<Rightarrow> [] | Some x \<Rightarrow> [(k, x)])"

text \<open>
  \<^verbatim>\<open>new Todo(title, description = '', dueDate = null)\<close>, at the time \<open>now\<close>.
\<close>

definition Todo_new :: "jv option \<Rightarrow> jv option \<Rightarrow> jv option \<Rightarrow> int \<Rightarrow> store \<Rightarrow> obj \<times> store" where
  "Todo_new title description dueDate now st =
     ([(''id'', JNum (nextId st))] @ opt_prop ''title'' title @
      [(''description'', default_arg description (JStr [])),
       (''dueDate'', default_arg dueDate JNull),
       (''completed'', JBool False),
       (''createdAt'', JStr (toISOString now))],
      st\<lparr>nextId := nextId st + 1\<rparr>)"

definition Todo_getAll :: "store \<Rightarrow> obj list" where
  "Todo_getAll st = todos st"

text \<open>
  \<^verbatim>\<open>todo.id === parseInt(id)\<close>: \<^verbatim>\<open>NaN\<close> is equal to nothing.
\<close>

definition has_id :: "int option \<Rightarrow> obj \<Rightarrow> bool" where
  "has_id n todo = (case n of None \<Rightarrow> False | Some i \<Rightarrow> get_prop todo ''id'' = Some (JNum i))"

definition Todo_findById :: "string \<Rightarrow> store \<Rightarrow> obj option" where
  "Todo_findById ident st = find (has_id (parseInt ident)) (todos st)"

definition Todo_create :: "obj \<Rightarrow> int \<Rightarrow> store \<Rightarrow> obj \<times> store" where
  "Todo_create todoData now st =
     (let (newTodo, st1) =
            Todo_new (get_prop todoData ''title'') (get_prop todoData ''description'')
              (get_prop todoData ''dueDate'') now st
      in (newTodo, st1\<lparr>todos := todos st1 @ [newTodo]\<rparr>))"

definition Todo_update :: "string \<Rightarrow> obj \<Rightarrow> store \<Rightarrow> obj option \<times> store" where
  "Todo_update ident updates st =
     (case findIndex (has_id (parseInt ident)) (todos st) of
        None \<Rightarrow> (None, st)
      | Some todoIndex \<Rightarrow>
          (case parseInt ident of
             None \<Rightarrow> (None, st)
           | Some n \<Rightarrow>
               let updatedTodo =
                     set_prop (spread (spread [] (todos st ! todoIndex)) updates) ''id'' (JNum n)
               in (Some updatedTodo, st\<lparr>todos := (todos st)[todoIndex := updatedTodo]\<rparr>)))"

definition Todo_delete :: "string \<Rightarrow> store \<Rightarrow> bool \<times> store" where
  "Todo_delete ident st =
     (case findIndex (has_id (parseInt ident)) (todos st) of
        None \<Rightarrow> (False, st)
      | Some todoIndex \<Rightarrow> (True, st\<lparr>todos := splice1 todoIndex (todos st)\<rparr>))"

section \<open>The HTTP interface\<close>

datatype body = Json_array "obj list" | Json_object obj | Json_message string | No_body

record response =
  status :: nat
  body :: body

definition ok :: "response \<Rightarrow> bool" where
  "ok r = (200 \<le> status r \<and> status r \<le> 299)"

text \<open>
  The controllers. Each wraps its work in a \<^verbatim>\<open>try\<close> that answers 500; no operation of
  the store throws, so that branch is never taken and is left out.
\<close>

definition getAllTodos :: "store \<Rightarrow> response \<times> store" where
  "getAllTodos st = (\<lparr>status = 200, body = Json_array (Todo_getAll st)\<rparr>, st)"

definition getTodoById :: "string \<Rightarrow> store \<Rightarrow> response \<times> store" where
  "getTodoById ident st =
     (case Todo_findById ident st of
        None \<Rightarrow> (\<lparr>status = 404, body = Json_message ''Todo not found''\<rparr>, st)
      | Some todo \<Rightarrow> (\<lparr>status = 200, body = Json_object todo\<rparr>, st))"

definition createTodo :: "obj \<Rightarrow> int \<Rightarrow> store \<Rightarrow> response \<times> store" where
  "createTodo req_body now st =
     (if \<not> truthy (get_prop req_body ''title'')
      then (\<lparr>status = 400, body = Json_message ''Title is required''\<rparr>, st)
      else let (newTodo, st1) = Todo_create req_body now st
           in (\<lparr>status = 201, body = Json_object newTodo\<rparr>, st1))"

definition updateTodo :: "string \<Rightarrow> obj \<Rightarrow> store \<Rightarrow> response \<times> store" where
  "updateTodo ident req_body st =
     (case Todo_update ident req_body st of
        (None, st1) \<Rightarrow> (\<lparr>status = 404, body = Json_message ''Todo not found''\<rparr>, st1)
      | (Some updatedTodo, st1) \<Rightarrow> (\<lparr>status = 200, body = Json_object updatedTodo\<rparr>, st1))"

definition deleteTodo :: "string \<Rightarrow> store \<Rightarrow> response \<times> store" where
  "deleteTodo ident st =
     (case Todo_delete ident st of
        (False, st1) \<Rightarrow> (\<lparr>status = 404, body = Json_message ''Todo not found''\<rparr>, st1)
      | (True, st1) \<Rightarrow> (\<lparr>status = 204, body = No_body\<rparr>, st1))"

text \<open>
  A request to \<^verbatim>\<open>/api/todos\<close>: the method, the path parameter and the JSON body.
\<close>

datatype request =
    GET_todos
  | GET_todo string
  | POST_todos obj
  | PUT_todo string obj
  | DELETE_todo string

text \<open>
  Modelled from the spec: the route table \<^verbatim>\<open>routes/todos.js\<close>, which is not among the
  sources. The spec names the four operations of the store (list, create, update by id,
  delete by id); each method goes to the controller of that name.
\<close>

definition route :: "request \<Rightarrow> int \<Rightarrow> store \<Rightarrow> response \<times> store" where
  "route req now st =
     (case req of
        GET_todos \<Rightarrow> getAllTodos st
      | GET_todo ident \<Rightarrow> getTodoById ident st
      | POST_todos req_body \<Rightarrow> createTodo req_body now st
      | PUT_todo ident req_body \<Rightarrow> updateTodo ident req_body st
      | DELETE_todo ident \<Rightarrow> deleteTodo ident st)"

section \<open>The browser\<close>

text \<open>
  What the client code runs in: the server behind \<^verbatim>\<open>fetch\<close>, the item
  \<^verbatim>\<open>recycledTasks\<close> of \<^verbatim>\<open>localStorage\<close> (\<open>None\<close> while it was never written), the clock
  that \<^verbatim>\<open>new Date()\<close> reads, and the fate of the coming requests: a request is
  delivered and answered, or lost before it reaches the server, or carried out by the
  server with the answer lost. Requests beyond the list are delivered. The server reads
  the same clock. The stored item is its parsed value: \<^verbatim>\<open>JSON.stringify\<close> followed by
  \<^verbatim>\<open>JSON.parse\<close> gives back the same objects, the module writes nothing else under
  that key, and access to it is taken to succeed where no failure of the storage is
  named.
\<close>

datatype net_event = Delivered | Request_lost | Response_lost

record world =
  server :: store
  recycledTasks :: "obj list option"
  clock :: int
  net :: "net_event list"

datatype js_error =
  Network_error | Error string | TypeError string | SyntaxError string | DOMException string

text \<open>
  An asynchronous function returns a value or throws, and changes the world either way.
\<close>

type_synonym 'a io = "world \<Rightarrow> (js_error + 'a) \<times> world"

definition ret :: "'a \<Rightarrow> 'a io" where
  "ret x w = (Inr x, w)"

definition throw :: "js_error \<Rightarrow> 'a io" where
  "throw e w = (Inl e, w)"

definition await :: "'a io \<Rightarrow> ('a \<Rightarrow> 'b io) \<Rightarrow> 'b io" where
  "await m f w = (case m w of (Inl e, w1) \<Rightarrow> (Inl e, w1) | (Inr x, w1) \<Rightarrow> f x w1)"

definition try_catch :: "'a io \<Rightarrow> (js_error \<Rightarrow> 'a io) \<Rightarrow> 'a io" where
  "try_catch m h w = (case m w of (Inl e, w1) \<Rightarrow> h e w1 | (Inr x, w1) \<Rightarrow> (Inr x, w1))"

definition next_event :: "world \<Rightarrow> net_event" where
  "next_event w = (case net w of [] \<Rightarrow> Delivered | e # es \<Rightarrow> e)"

text \<open>The fate of the request after the next \<open>i\<close>.\<close>

definition upcoming :: "world \<Rightarrow> nat \<Rightarrow> net_event" where
  "upcoming w i = next_event (w\<lparr>net := drop i (net w)\<rparr>)"

text \<open>\<^verbatim>\<open>fetch\<close> rejects when the request or its answer is lost.\<close>

definition fetch :: "request \<Rightarrow> response io" where
  "fetch req w =
     (let w1 = w\<lparr>net := tl (net w)\<rparr> in
      case next_event w of
        Request_lost \<Rightarrow> (Inl Network_error, w1)
      | Response_lost \<Rightarrow> (Inl Network_error, w1\<lparr>server := snd (route req (clock w) (server w))\<rparr>)
      | Delivered \<Rightarrow>
          (let (resp, st) = route req (clock w) (server w) in (Inr resp, w1\<lparr>server := st\<rparr>)))"

text \<open>
  \<^verbatim>\<open>response.json()\<close> where the caller goes on to use the result as an array. The
  collection route answers a successful \<^verbatim>\<open>GET\<close> with an array and nothing else.
\<close>

definition json_array :: "response \<Rightarrow> obj list io" where
  "json_array r =
     (case body r of Json_array xs \<Rightarrow> ret xs | _ \<Rightarrow> throw (TypeError ''not an array''))"

text \<open>\<^verbatim>\<open>await new Promise(resolve => setTimeout(resolve, n))\<close>.\<close>

definition sleep :: "int \<Rightarrow> unit io" where
  "sleep n w = (Inr (), w\<lparr>clock := clock w + n\<rparr>)"

section \<open>The Storage module\<close>

definition getTasks :: "obj list io" where
  "getTasks =
     try_catch
       (await (fetch GET_todos) (\<lambda>response.
          if \<not> ok response then throw (Error ''Failed to fetch tasks'')
          else json_array response))
       (\<lambda>error. ret [])"

definition addTask :: "obj \<Rightarrow> obj list io" where
  "addTask task =
     try_catch
       (await (fetch (POST_todos task)) (\<lambda>response.
          if \<not> ok response then throw (Error ''Failed to add task'')
          else getTasks))
       (\<lambda>error. getTasks)"

definition getRecycledTasks :: "world \<Rightarrow> obj list" where
  "getRecycledTasks w = (case recycledTasks w of None \<Rightarrow> [] | Some ts \<Rightarrow> ts)"

text \<open>\<^verbatim>\<open>localStorage.setItem(RECYCLED_TASKS_KEY, JSON.stringify(ts))\<close>.\<close>

definition setItem :: "obj list \<Rightarrow> world \<Rightarrow> world" where
  "setItem ts w = w\<lparr>recycledTasks := Some ts\<rparr>"

text \<open>
  \<^verbatim>\<open>deleteTask(taskId)\<close>, the recycle operation; \<open>recycle\<close> is the block it runs when
  the task was found. The id goes into the request path as the template literal writes
  it.
\<close>

definition recycle :: "jv \<Rightarrow> obj \<Rightarrow> unit io" where
  "recycle taskId task w =
     (let taskToRecycle = set_prop task ''deletedAt'' (JStr (toISOString (clock w)));
          recycled = getRecycledTasks w @ [taskToRecycle];
          w1 = setItem recycled w
      in await (fetch (DELETE_todo (String_of taskId))) (\<lambda>response.
           if \<not> ok response then throw (Error ''Failed to delete task'')
           else sleep 100) w1)"

definition deleteTask :: "jv \<Rightarrow> obj list io" where
  "deleteTask taskId =
     try_catch
       (await getTasks (\<lambda>allTasks.
          await
            (case find (\<lambda>task. get_prop task ''id'' = Some taskId) allTasks of
               None \<Rightarrow> ret ()
             | Some taskToRecycle \<Rightarrow> recycle taskId taskToRecycle)
            (\<lambda>u. getTasks)))
       (\<lambda>error. getTasks)"

text \<open>
  The same operation where the access to \<^verbatim>\<open>localStorage\<close> can fail. In the block that
  recycles the task, \<^verbatim>\<open>getRecycledTasks()\<close> throws when \<^verbatim>\<open>JSON.parse\<close> cannot read the
  item, and \<^verbatim>\<open>localStorage.setItem\<close> throws when the quota is exceeded, leaving the item
  as it was. Both come before the \<^verbatim>\<open>DELETE\<close> request, which is then not sent, and both
  are inside the \<^verbatim>\<open>try\<close>.
\<close>

datatype storage_event = Stored | Read_error | Write_error

definition recycle_st :: "storage_event \<Rightarrow> jv \<Rightarrow> obj \<Rightarrow> unit io" where
  "recycle_st sf taskId task =
     (case sf of
        Read_error \<Rightarrow> throw (SyntaxError ''Unexpected token'')
      | Write_error \<Rightarrow> throw (DOMException ''QuotaExceededError'')
      | Stored \<Rightarrow> recycle taskId task)"

definition deleteTask_st :: "storage_event \<Rightarrow> jv \<Rightarrow> obj list io" where
  "deleteTask_st sf taskId =
     try_catch
       (await getTasks (\<lambda>allTasks.
          await
            (case find (\<lambda>task. get_prop task ''id'' = Some taskId) allTasks of
               None \<Rightarrow> ret ()
             | Some taskToRecycle \<Rightarrow> recycle_st sf taskId taskToRecycle)
            (\<lambda>u. getTasks)))
       (\<lambda>error. getTasks)"

definition getTasksByDate :: "jv \<Rightarrow> obj list io" where
  "getTasksByDate date =
     try_catch
       (await getTasks (\<lambda>tasks.
          ret (filter (\<lambda>task. get_prop task ''dueDate'' = Some date) tasks)))
       (\<lambda>error. ret [])"

text \<open>\<^verbatim>\<open>dates.add(x)\<close> on a \<^verbatim>\<open>Set\<close>, kept as the array \<^verbatim>\<open>Array.from\<close> makes of it.\<close>

definition Set_add :: "jv list \<Rightarrow> jv \<Rightarrow> jv list" where
  "Set_add dates x = (if x \<in> set dates then dates else dates @ [x])"

definition collect_dates :: "obj list \<Rightarrow> jv list" where
  "collect_dates tasks =
     fold (\<lambda>task dates.
             case get_prop task ''dueDate'' of
               None \<Rightarrow> dates
             | Some d \<Rightarrow> if truthy (Some d) then Set_add dates d else dates)
          tasks []"

definition getDatesWithTasks :: "jv list io" where
  "getDatesWithTasks =
     try_catch (await getTasks (\<lambda>tasks. ret (collect_dates tasks))) (\<lambda>error. ret [])"

definition permanentlyDeleteTask :: "jv \<Rightarrow> world \<Rightarrow> obj list \<times> world" where
  "permanentlyDeleteTask taskId w =
     (let recycled = getRecycledTasks w;
          filteredTasks = filter (\<lambda>task. get_prop task ''id'' \<noteq> Some taskId) recycled
      in (filteredTasks, setItem filteredTasks w))"

definition emptyRecycleBin :: "world \<Rightarrow> obj list \<times> world" where
  "emptyRecycleBin w = ([], setItem [] w)"

definition restoreTask :: "jv \<Rightarrow> obj list io" where
  "restoreTask taskId w =
     (let recycled = getRecycledTasks w in
      case findIndex (\<lambda>task. get_prop task ''id'' = Some taskId) recycled of
        None \<Rightarrow> (Inr recycled, w)
      | Some taskIndex \<Rightarrow>
          (let taskToRestore = delete_prop (spread [] (recycled ! taskIndex)) ''deletedAt'' in
           await (addTask taskToRestore) (\<lambda>u w1.
             let spliced = splice1 taskIndex recycled in
             (Inr spliced, setItem spliced w1)) w))"

text \<open>
  \<^verbatim>\<open>d.setDate(n)\<close>: the same month and time of day, on day \<open>n\<close> of the month (counted on
  from the month when \<open>n\<close> is not one of its days).
\<close>

definition setDate :: "int \<Rightarrow> int \<Rightarrow> int" where
  "setDate t n = MakeDay (YearFromTime t) (MonthFromTime t) n * msPerDay + t mod msPerDay"

definition thirtyDaysAgo :: "world \<Rightarrow> int" where
  "thirtyDaysAgo w = setDate (clock w) (getDate (clock w) - 30)"

definition cleanupRecycleBin :: "(string \<Rightarrow> int option) \<Rightarrow> world \<Rightarrow> obj list \<times> world" where
  "cleanupRecycleBin parse w =
     (let recycled = getRecycledTasks w;
          filteredTasks =
            filter (\<lambda>task. date_gt (Date_of parse (get_prop task ''deletedAt''))
                                 (Some (thirtyDaysAgo w)))
                   recycled
      in (filteredTasks, setItem filteredTasks w))"

section \<open>The Calendar module\<close>

text \<open>
  A child of the element \<^verbatim>\<open>calendar-days\<close>: its text, its class and, on a day of the
  current month, its \<^verbatim>\<open>data-date\<close>. The module state is \<^verbatim>\<open>currentDate\<close> (the month on
  show) and \<^verbatim>\<open>selectedDate\<close>.
\<close>

record day_element =
  textContent :: int
  className :: string
  dataset_date :: "string option"

record calendar =
  currentDate :: int
  selectedDate :: int

definition formatDate :: "int \<Rightarrow> string" where
  "formatDate date =
     (let year = getFullYear date;
          month = padStart0 2 (String_of_int (getMonth date + 1));
          day = padStart0 2 (String_of_int (getDate date))
      in String_of_int year @ ''-'' @ month @ ''-'' @ day)"

definition createDayElement :: "int \<Rightarrow> string \<Rightarrow> day_element" where
  "createDayElement dayNumber cls =
     \<lparr>textContent = dayNumber, className = ''day '' @ cls, dataset_date = None\<rparr>"

definition isSameDay :: "int \<Rightarrow> int \<Rightarrow> bool" where
  "isSameDay date1 date2 =
     (getFullYear date1 = getFullYear date2 \<and> getMonth date1 = getMonth date2 \<and>
      getDate date1 = getDate date2)"

text \<open>The body of the loop over the days of the current month.\<close>

definition current_day :: "calendar \<Rightarrow> int \<Rightarrow> jv list \<Rightarrow> int \<Rightarrow> int \<Rightarrow> int \<Rightarrow> day_element" where
  "current_day cal now datesWithTasks year month i =
     (let date = Date_ymd year month i;
          dateString = formatDate date;
          isToday = isSameDay date now;
          isSelected = isSameDay date (selectedDate cal);
          hasTask = (JStr dateString \<in> set datesWithTasks);
          cls = (if isToday then '' today'' else []) @ (if isSelected then '' selected'' else []) @
                (if hasTask then '' has-tasks'' else [])
      in (createDayElement i cls)\<lparr>dataset_date := Some dateString\<rparr>)"

text \<open>
  \<^verbatim>\<open>generateCalendar()\<close>, one call running alone: the children of \<^verbatim>\<open>calendar-days\<close>
  once it returns. The three loops are the three lists.
\<close>

definition generateCalendar :: "calendar \<Rightarrow> day_element list io" where
  "generateCalendar cal =
     (let year = getFullYear (currentDate cal);
          month = getMonth (currentDate cal);
          firstDay = Date_ymd year month 1;
          lastDay = Date_ymd year (month + 1) 0;
          startingDayOfWeek = getDay firstDay;
          totalDays = getDate lastDay
      in await getDatesWithTasks (\<lambda>datesWithTasks w.
           let prevMonthLastDay = getDate (Date_ymd year month 0);
               previous = map (\<lambda>i. createDayElement (prevMonthLastDay - i) ''other-month'')
                              (rev [0..startingDayOfWeek - 1]);
               current = map (current_day cal (clock w) datesWithTasks year month) [1..totalDays];
               remainingDays = 42 - (startingDayOfWeek + totalDays);
               following = map (\<lambda>i. createDayElement i ''other-month'') [1..remainingDays]
           in (Inr (previous @ current @ following), w)))"

section \<open>The states of the store\<close>

text \<open>
  The store starts empty and changes through the routes only. In every state it reaches,
  the ids are distinct numbers from 1 up to, and not including, \<^verbatim>\<open>nextId\<close>.
\<close>

fun id_below :: "int \<Rightarrow> jv option \<Rightarrow> bool" where
  "id_below m (Some (JNum n)) = (1 \<le> n \<and> n < m)"
| "id_below m v = False"

definition store_inv :: "store \<Rightarrow> bool" where
  "store_inv st =
     (1 \<le> nextId st \<and>
      distinct (map (\<lambda>todo. get_prop todo ''id'') (todos st)) \<and>
      list_all (\<lambda>todo. id_below (nextId st) (get_prop todo ''id'')) (todos st))"

inductive reachable :: "store \<Rightarrow> bool" where
  start: "reachable initial_store"
| step: "reachable st \<Longrightarrow> reachable (snd (route req now st))"

section \<open>Facts about objects and arrays\<close>

lemma map_of_rev_map_set:
  "map_of (rev (map (\<lambda>p. if fst p = k then (k, v) else p) ob)) k' =
     (if k' = k \<and> k \<in> fst ` set ob then Some v else map_of (rev ob) k')"
proof (induction ob)
  case Nil
  show ?case by simp
next
  case (Cons a ob)
  have in_dom: "k \<in> fst ` set ob" if "map_of (rev ob) k = Some x" for x
    using map_of_SomeD [OF that] by force
  show ?case
    using Cons in_dom by (auto simp: map_add_def split: option.splits)
qed

lemma get_prop_set_prop:
  "get_prop (set_prop ob k v) k' = (if k' = k then Some v else get_prop ob k')"
  by (auto simp: get_prop_def set_prop_def map_of_rev_map_set)

lemma get_prop_Nil [simp]: "get_prop [] k = None"
  by (simp add: get_prop_def)

lemma get_prop_snoc:
  "get_prop (ob @ [(k, v)]) k' = (if k' = k then Some v else get_prop ob k')"
  by (simp add: get_prop_def)

lemma get_prop_delete_prop:
  "get_prop (delete_prop ob k) k' = (if k' = k then None else get_prop ob k')"
  unfolding get_prop_def delete_prop_def
  by (induction ob) (auto simp: map_add_def rev_filter split: option.splits)

lemma get_prop_spread:
  "get_prop (spread a b) k = (case get_prop b k of None \<Rightarrow> get_prop a k | Some v \<Rightarrow> Some v)"
proof (induction b arbitrary: a rule: rev_induct)
  case Nil
  show ?case by (simp add: spread_def)
next
  case (snoc p b)
  have "spread a (b @ [p]) = set_prop (spread a b) (fst p) (snd p)"
    by (simp add: spread_def)
  then show ?case
    using snoc [of a] by (cases p) (simp add: get_prop_set_prop get_prop_snoc)
qed

lemma get_prop_copy: "get_prop (spread [] a) k = get_prop a k"
  by (simp add: get_prop_spread split: option.splits)

lemma findIndex_Some:
  "findIndex p xs = Some i \<Longrightarrow> i < length xs \<and> p (xs ! i) \<and> (\<forall>j<i. \<not> p (xs ! j))"
proof (induction xs arbitrary: i)
  case Nil
  then show ?case by simp
next
  case (Cons x xs)
  show ?case
  proof (cases "p x")
    case True
    with Cons.prems show ?thesis by simp
  next
    case False
    with Cons.prems obtain j where j: "findIndex p xs = Some j" "i = Suc j" by auto
    from Cons.IH [OF j(1)] False j(2) show ?thesis by (auto simp: less_Suc_eq_0_disj)
  qed
qed

lemma findIndex_None: "findIndex p xs = None \<longleftrightarrow> (\<forall>x\<in>set xs. \<not> p x)"
  by (induction xs) auto

lemma ids_list_update:
  "i < length xs \<Longrightarrow> f y = f (xs ! i) \<Longrightarrow> map f (xs[i := y]) = map f xs"
  by (simp add: map_update list_update_same_conv)

lemma Todo_update_SomeD:
  assumes "Todo_update ident updates st = (Some updatedTodo, st1)"
  shows "\<exists>n i. parseInt ident = Some n \<and> i < length (todos st) \<and>
           get_prop (todos st ! i) ''id'' = Some (JNum n) \<and>
           get_prop updatedTodo ''id'' = Some (JNum n) \<and>
           todos st1 = (todos st)[i := updatedTodo] \<and>
           map (\<lambda>todo. get_prop todo ''id'') (todos st1) =
           map (\<lambda>todo. get_prop todo ''id'') (todos st)"
proof -
  from assms obtain i n where
    i: "findIndex (has_id (parseInt ident)) (todos st) = Some i" and
    n: "parseInt ident = Some n" and
    u: "updatedTodo = set_prop (spread (spread [] (todos st ! i)) updates) ''id'' (JNum n)" and
    s: "st1 = st\<lparr>todos := (todos st)[i := updatedTodo]\<rparr>"
    by (auto simp: Todo_update_def Let_def split: option.splits)
  from findIndex_Some [OF i] n have
    b: "i < length (todos st)" and h: "get_prop (todos st ! i) ''id'' = Some (JNum n)"
    by (simp_all add: has_id_def)
  have g: "get_prop updatedTodo ''id'' = Some (JNum n)"
    by (simp add: u get_prop_set_prop)
  have "map (\<lambda>todo. get_prop todo ''id'') ((todos st)[i := updatedTodo]) =
        map (\<lambda>todo. get_prop todo ''id'') (todos st)"
    by (rule ids_list_update [OF b]) (simp add: g h)
  with n b h g s show ?thesis by auto
qed

lemma parseInt_1: "parseInt ''1'' = Some 1"
  by (simp add: parseInt_def is_space_def digit_val_def)

section \<open>The invariant of the store\<close>

lemma id_below_iff: "id_below m v \<longleftrightarrow> (\<exists>n. v = Some (JNum n) \<and> 1 \<le> n \<and> n < m)"
  by (cases "(m, v)" rule: id_below.cases) auto

lemma store_inv_initial: "store_inv initial_store"
  by (simp add: store_inv_def initial_store_def)

lemma get_prop_Todo_new_id:
  "get_prop (fst (Todo_new title description dueDate now st)) ''id'' = Some (JNum (nextId st))"
  by (simp add: Todo_new_def get_prop_def opt_prop_def split: option.splits)

lemma store_inv_create:
  assumes "store_inv st"
  shows "store_inv (snd (Todo_create todoData now st))"
proof -
  let ?t = "fst (Todo_new (get_prop todoData ''title'') (get_prop todoData ''description'')
              (get_prop todoData ''dueDate'') now st)"
  have s: "snd (Todo_create todoData now st) = \<lparr>todos = todos st @ [?t], nextId = nextId st + 1\<rparr>"
    by (simp add: Todo_create_def Todo_new_def Let_def)
  have i: "get_prop ?t ''id'' = Some (JNum (nextId st))" by (rule get_prop_Todo_new_id)
  have old: "\<exists>n. get_prop todo ''id'' = Some (JNum n) \<and> 1 \<le> n \<and> n < nextId st"
    if "todo \<in> set (todos st)" for todo
    using assms that by (auto simp: store_inv_def list_all_iff id_below_iff)
  have fresh: "Some (JNum (nextId st)) \<notin> (\<lambda>todo. get_prop todo ''id'') ` set (todos st)"
    using old by fastforce
  have pos: "1 \<le> nextId st" using assms by (simp add: store_inv_def)
  have old': "id_below (nextId st + 1) (get_prop todo ''id'')"
    if "todo \<in> set (todos st)" for todo
    using old [OF that] by (auto simp: id_below_iff)
  have d: "distinct (map (\<lambda>todo. get_prop todo ''id'') (todos st))"
    using assms by (simp add: store_inv_def)
  show ?thesis
    unfolding s store_inv_def using d fresh i old' pos
    by (simp add: list_all_iff)
qed

lemma store_inv_update:
  assumes "store_inv st"
  shows "store_inv (snd (Todo_update ident updates st))"
proof (cases "fst (Todo_update ident updates st)")
  case None
  then have "snd (Todo_update ident updates st) = st"
    by (auto simp: Todo_update_def Let_def split: option.splits)
  with assms show ?thesis by simp
next
  case (Some u)
  then have "Todo_update ident updates st = (Some u, snd (Todo_update ident updates st))"
    by (simp add: prod_eq_iff)
  from Todo_update_SomeD [OF this] obtain n i where
    b: "i < length (todos st)" and
    h: "get_prop (todos st ! i) ''id'' = Some (JNum n)" and
    g: "get_prop u ''id'' = Some (JNum n)" and
    t: "todos (snd (Todo_update ident updates st)) = (todos st)[i := u]" and
    m: "map (\<lambda>todo. get_prop todo ''id'') (todos (snd (Todo_update ident updates st))) =
        map (\<lambda>todo. get_prop todo ''id'') (todos st)"
    by blast
  have nx: "nextId (snd (Todo_update ident updates st)) = nextId st"
    by (auto simp: Todo_update_def Let_def split: option.splits)
  have "list_all (\<lambda>todo. id_below (nextId st) (get_prop todo ''id'')) ((todos st)[i := u])"
    unfolding list_all_iff
  proof
    fix x assume "x \<in> set ((todos st)[i := u])"
    then have "x = u \<or> x \<in> set (todos st)" using set_update_subset_insert by fastforce
    moreover have "todos st ! i \<in> set (todos st)" using b by simp
    ultimately show "id_below (nextId st) (get_prop x ''id'')"
      using assms g h by (auto simp: store_inv_def list_all_iff)
  qed
  then show ?thesis
    using assms m t nx by (simp add: store_inv_def)
qed

lemma distinct_splice1: "distinct xs \<Longrightarrow> distinct (splice1 i xs)"
proof (induction xs arbitrary: i)
  case Nil
  show ?case by (simp add: splice1_def)
next
  case (Cons x xs)
  show ?case
  proof (cases i)
    case 0
    with Cons.prems show ?thesis by (simp add: splice1_def)
  next
    case (Suc j)
    have "x \<notin> set (splice1 j xs)"
      using Cons.prems by (auto simp: splice1_def dest: in_set_takeD in_set_dropD)
    with Cons.IH [of j] Cons.prems Suc show ?thesis by (simp add: splice1_def)
  qed
qed

lemma map_splice1: "map f (splice1 i xs) = splice1 i (map f xs)"
  by (simp add: splice1_def take_map drop_map)

lemma set_splice1: "set (splice1 i xs) \<subseteq> set xs"
  by (auto simp: splice1_def dest: in_set_takeD in_set_dropD)

lemma store_inv_delete:
  assumes "store_inv st"
  shows "store_inv (snd (Todo_delete ident st))"
proof (cases "findIndex (has_id (parseInt ident)) (todos st)")
  case None
  then show ?thesis using assms by (simp add: Todo_delete_def)
next
  case (Some i)
  show ?thesis
    using assms Some set_splice1 [of i "todos st"]
    by (auto simp: Todo_delete_def store_inv_def list_all_iff map_splice1 distinct_splice1)
qed

lemma store_inv_route: "store_inv st \<Longrightarrow> store_inv (snd (route req now st))"
proof (cases req)
  case GET_todos
  then show "store_inv st \<Longrightarrow> ?thesis" by (simp add: route_def getAllTodos_def)
next
  case (GET_todo x)
  then show "store_inv st \<Longrightarrow> ?thesis"
    by (simp add: route_def getTodoById_def split: option.splits)
next
  case (POST_todos b)
  then show "store_inv st \<Longrightarrow> ?thesis"
    using store_inv_create [of st b now]
    by (simp add: route_def createTodo_def split_beta)
next
  case (PUT_todo x b)
  then show "store_inv st \<Longrightarrow> ?thesis"
    using store_inv_update [of st x b]
    by (cases "Todo_update x b st") (auto simp: route_def updateTodo_def split: option.splits)
next
  case (DELETE_todo x)
  then show "store_inv st \<Longrightarrow> ?thesis"
    using store_inv_delete [of st x]
    by (cases "Todo_delete x st") (auto simp: route_def deleteTodo_def split: bool.splits)
qed

lemma reachable_store_inv: "reachable st \<Longrightarrow> store_inv st"
  by (induction rule: reachable.induct) (simp_all add: store_inv_initial store_inv_route)

section \<open>Updating a task keeps its id\<close>

text \<open>
  Claim C10. For every todo of the store and every update payload, \<^verbatim>\<open>Todo.update\<close>
  called with the id of that todo in the request path succeeds and returns a todo with
  that same id, whatever \<^verbatim>\<open>id\<close> the payload carries; the result replaces a todo that
  had this id, and the ids held by the store are the same before and after.
\<close>

theorem Todo_update_preserves_id:
  assumes "todo \<in> set (todos st)"
    and "get_prop todo ''id'' = Some (JNum n)"
    and "parseInt ident = Some n"
  shows "\<exists>updatedTodo st1 i.
           Todo_update ident updates st = (Some updatedTodo, st1) \<and>
           get_prop updatedTodo ''id'' = Some (JNum n) \<and>
           i < length (todos st) \<and> get_prop (todos st ! i) ''id'' = Some (JNum n) \<and>
           todos st1 = (todos st)[i := updatedTodo] \<and>
           map (\<lambda>todo. get_prop todo ''id'') (todos st1) =
           map (\<lambda>todo. get_prop todo ''id'') (todos st)"
proof -
  have "has_id (parseInt ident) todo" using assms by (simp add: has_id_def)
  with assms(1) have "findIndex (has_id (parseInt ident)) (todos st) \<noteq> None"
    by (auto simp: findIndex_None)
  then obtain i where i: "findIndex (has_id (parseInt ident)) (todos st) = Some i" by auto
  obtain updatedTodo st1 where
    r: "Todo_update ident updates st = (Some updatedTodo, st1)"
    using i assms(3) by (simp add: Todo_update_def Let_def)
  from Todo_update_SomeD [OF r] assms(3) r show ?thesis by auto
qed

theorem Todo_update_preserves_id_witness:
  "[(''id'', JNum 1), (''title'', JStr ''a'')] \<in>
     set (todos \<lparr>todos = [[(''id'', JNum 1), (''title'', JStr ''a'')]], nextId = 2\<rparr>) \<and>
   parseInt ''1'' = Some 1 \<and>
   Todo_update ''1'' [(''id'', JNum 99), (''title'', JStr ''b'')]
     \<lparr>todos = [[(''id'', JNum 1), (''title'', JStr ''a'')]], nextId = 2\<rparr> =
   (Some [(''id'', JNum 1), (''title'', JStr ''b'')],
    \<lparr>todos = [[(''id'', JNum 1), (''title'', JStr ''b'')]], nextId = 2\<rparr>) \<and>
   (\<exists>updatedTodo st1 i.
      Todo_update ''1'' [(''id'', JNum 99), (''title'', JStr ''b'')]
        \<lparr>todos = [[(''id'', JNum 1), (''title'', JStr ''a'')]], nextId = 2\<rparr> =
      (Some updatedTodo, st1) \<and>
      get_prop updatedTodo ''id'' = Some (JNum 1) \<and>
      i < length (todos \<lparr>todos = [[(''id'', JNum 1), (''title'', JStr ''a'')]], nextId = 2\<rparr>) \<and>
      get_prop (todos \<lparr>todos = [[(''id'', JNum 1), (''title'', JStr ''a'')]], nextId = 2\<rparr> ! i)
        ''id'' = Some (JNum 1) \<and>
      todos st1 =
        (todos \<lparr>todos = [[(''id'', JNum 1), (''title'', JStr ''a'')]], nextId = 2\<rparr>)
          [i := updatedTodo] \<and>
      map (\<lambda>todo. get_prop todo ''id'') (todos st1) =
      map (\<lambda>todo. get_prop todo ''id'')
        (todos \<lparr>todos = [[(''id'', JNum 1), (''title'', JStr ''a'')]], nextId = 2\<rparr>))"
proof -
  let ?st = "\<lparr>todos = [[(''id'', JNum 1), (''title'', JStr ''a'')]], nextId = 2\<rparr>"
  have m: "[(''id'', JNum 1), (''title'', JStr ''a'')] \<in> set (todos ?st)" by simp
  have g: "get_prop [(''id'', JNum 1), (''title'', JStr ''a'')] ''id'' = Some (JNum 1)"
    by (simp add: get_prop_def)
  have e: "Todo_update ''1'' [(''id'', JNum 99), (''title'', JStr ''b'')] ?st =
     (Some [(''id'', JNum 1), (''title'', JStr ''b'')],
      \<lparr>todos = [[(''id'', JNum 1), (''title'', JStr ''b'')]], nextId = 2\<rparr>)"
    by (simp add: Todo_update_def parseInt_1 has_id_def get_prop_def spread_def set_prop_def
          Let_def)
  from Todo_update_preserves_id [OF m g parseInt_1, of "[(''id'', JNum 99), (''title'', JStr ''b'')]"]
    m e parseInt_1
  show ?thesis by blast
qed

section \<open>Creating a task\<close>

lemma Todo_create_eq:
  "Todo_create todoData now st =
     (fst (Todo_new (get_prop todoData ''title'') (get_prop todoData ''description'')
              (get_prop todoData ''dueDate'') now st),
      \<lparr>todos = todos st @ [fst (Todo_new (get_prop todoData ''title'')
              (get_prop todoData ''description'') (get_prop todoData ''dueDate'') now st)],
       nextId = nextId st + 1\<rparr>)"
  by (simp add: Todo_create_def Todo_new_def Let_def)

lemma get_prop_Todo_new:
  "get_prop (fst (Todo_new title description dueDate now st)) k =
     (if k = ''id'' then Some (JNum (nextId st))
      else if k = ''title'' then title
      else if k = ''description'' then Some (default_arg description (JStr []))
      else if k = ''dueDate'' then Some (default_arg dueDate JNull)
      else if k = ''completed'' then Some (JBool False)
      else if k = ''createdAt'' then Some (JStr (toISOString now))
      else None)"
  by (cases title) (simp_all add: Todo_new_def get_prop_def opt_prop_def)

section \<open>An example state\<close>

text \<open>
  The store after one \<^verbatim>\<open>POST\<close> to the empty store, and a browser in front of it whose
  requests are all delivered.
\<close>

definition example_store :: store where
  "example_store =
     snd (route (POST_todos [(''title'', JStr ''Pay rent''), (''dueDate'', JStr ''2024-01-05'')])
            0 initial_store)"

definition example_task :: obj where
  "example_task =
     [(''id'', JNum 1), (''title'', JStr ''Pay rent''), (''description'', JStr []),
      (''dueDate'', JStr ''2024-01-05''), (''completed'', JBool False),
      (''createdAt'', JStr (toISOString 0))]"

definition example_world :: world where
  "example_world = \<lparr>server = example_store, recycledTasks = None, clock = 1706745600000, net = []\<rparr>"

lemma example_store_eq: "example_store = \<lparr>todos = [example_task], nextId = 2\<rparr>"
  by (simp add: example_store_def example_task_def route_def createTodo_def get_prop_def
        Todo_create_eq Todo_new_def opt_prop_def default_arg_def initial_store_def)

lemma example_store_reachable: "reachable example_store"
  unfolding example_store_def by (rule reachable.step [OF reachable.start])

lemma example_task_id: "get_prop example_task ''id'' = Some (JNum 1)"
  by (simp add: example_task_def get_prop_def)

lemma example_upcoming: "upcoming example_world i = Delivered"
  by (simp add: upcoming_def next_event_def example_world_def)

section \<open>The task that create returns\<close>

text \<open>
  Claim C9, as the code has it. In every state the store reaches, \<^verbatim>\<open>Todo.create\<close>
  returns a task whose id is the counter \<^verbatim>\<open>nextId\<close>, which no task of the store has;
  \<^verbatim>\<open>completed\<close> is false and \<^verbatim>\<open>createdAt\<close> is the time of the call; the title is the
  request's, the description defaults to the empty string and the due date to null.
  No default is written for the category: a request without a category gives a task
  without one. The task is appended to the store.
\<close>

theorem Todo_create_fresh:
  assumes "reachable st"
  shows "get_prop (fst (Todo_create todoData now st)) ''id'' = Some (JNum (nextId st)) \<and>
         (\<forall>todo\<in>set (todos st).
            get_prop todo ''id'' \<noteq> get_prop (fst (Todo_create todoData now st)) ''id'') \<and>
         get_prop (fst (Todo_create todoData now st)) ''completed'' = Some (JBool False) \<and>
         get_prop (fst (Todo_create todoData now st)) ''createdAt'' =
           Some (JStr (toISOString now)) \<and>
         (get_prop todoData ''category'' = None \<longrightarrow>
            get_prop (fst (Todo_create todoData now st)) ''category'' = None) \<and>
         get_prop (fst (Todo_create todoData now st)) ''title'' = get_prop todoData ''title'' \<and>
         get_prop (fst (Todo_create todoData now st)) ''description'' =
           Some (default_arg (get_prop todoData ''description'') (JStr [])) \<and>
         get_prop (fst (Todo_create todoData now st)) ''dueDate'' =
           Some (default_arg (get_prop todoData ''dueDate'') JNull) \<and>
         todos (snd (Todo_create todoData now st)) =
           todos st @ [fst (Todo_create todoData now st)]"
proof -
  have "store_inv st" using assms by (rule reachable_store_inv)
  then have "\<forall>todo\<in>set (todos st). get_prop todo ''id'' \<noteq> Some (JNum (nextId st))"
    by (auto simp: store_inv_def list_all_iff id_below_iff)
  then show ?thesis
    by (simp add: Todo_create_eq get_prop_Todo_new)
qed

text \<open>
  The example store holds the task with id 1; a second request, with a title and no
  category, gives the task with id 2.
\<close>

theorem Todo_create_fresh_witness:
  "reachable example_store \<and>
   todos example_store = [example_task] \<and>
   get_prop example_task ''id'' = Some (JNum 1) \<and>
   get_prop [(''title'', JStr ''Buy milk'')] ''category'' = None \<and>
   get_prop (fst (Todo_create [(''title'', JStr ''Buy milk'')] 86400000 example_store)) ''id'' =
     Some (JNum 2) \<and>
   get_prop example_task ''id'' \<noteq>
     get_prop (fst (Todo_create [(''title'', JStr ''Buy milk'')] 86400000 example_store)) ''id'' \<and>
   get_prop (fst (Todo_create [(''title'', JStr ''Buy milk'')] 86400000 example_store))
     ''completed'' = Some (JBool False) \<and>
   get_prop (fst (Todo_create [(''title'', JStr ''Buy milk'')] 86400000 example_store))
     ''createdAt'' = Some (JStr (toISOString 86400000)) \<and>
   get_prop (fst (Todo_create [(''title'', JStr ''Buy milk'')] 86400000 example_store))
     ''category'' = None \<and>
   todos (snd (Todo_create [(''title'', JStr ''Buy milk'')] 86400000 example_store)) =
     [example_task, fst (Todo_create [(''title'', JStr ''Buy milk'')] 86400000 example_store)]"
proof -
  have c: "get_prop [(''title'', JStr ''Buy milk'')] ''category'' = None"
    by (simp add: get_prop_def)
  have t: "todos example_store = [example_task]" "nextId example_store = 2"
    by (simp_all add: example_store_eq)
  from Todo_create_fresh [OF example_store_reachable,
      of "[(''title'', JStr ''Buy milk'')]" 86400000]
  show ?thesis
    using example_store_reachable example_task_id c t by simp
qed

text \<open>
  The claim as the spec states it fails on the category: a request with a title and no
  category, made to the empty store, gives a task whose category is not \<^verbatim>\<open>"none"\<close>.
\<close>

theorem Todo_create_category_counterexample:
  "get_prop (fst (Todo_create [(''title'', JStr ''a'')] 0 initial_store)) ''category'' \<noteq>
     Some (JStr ''none'')"
  by (simp add: Todo_create_eq get_prop_Todo_new)

section \<open>Deleting from the recycle bin for good\<close>

text \<open>
  Claim C8. \<^verbatim>\<open>permanentlyDeleteTask(taskId)\<close> leaves in the bin exactly the entries whose
  id is not \<^verbatim>\<open>taskId\<close>, in their order, and returns them; the server is not touched.
  When no entry has that id the bin is what it was. Doing it twice is doing it once.
  The function has no way to throw.
\<close>

theorem permanentlyDeleteTask_exact:
  "getRecycledTasks (snd (permanentlyDeleteTask taskId w)) =
     filter (\<lambda>task. get_prop task ''id'' \<noteq> Some taskId) (getRecycledTasks w) \<and>
   fst (permanentlyDeleteTask taskId w) = getRecycledTasks (snd (permanentlyDeleteTask taskId w)) \<and>
   server (snd (permanentlyDeleteTask taskId w)) = server w \<and>
   ((\<forall>task\<in>set (getRecycledTasks w). get_prop task ''id'' \<noteq> Some taskId) \<longrightarrow>
      getRecycledTasks (snd (permanentlyDeleteTask taskId w)) = getRecycledTasks w) \<and>
   permanentlyDeleteTask taskId (snd (permanentlyDeleteTask taskId w)) =
     permanentlyDeleteTask taskId w"
  by (simp add: permanentlyDeleteTask_def getRecycledTasks_def setItem_def Let_def)

theorem permanentlyDeleteTask_exact_witness:
  "getRecycledTasks (snd (permanentlyDeleteTask (JNum 1)
     \<lparr>server = initial_store,
      recycledTasks = Some [[(''id'', JNum 1)], [(''id'', JNum 2)], [(''id'', JNum 1)]],
      clock = 0, net = []\<rparr>)) = [[(''id'', JNum 2)]] \<and>
   getRecycledTasks (snd (permanentlyDeleteTask (JNum 3)
     \<lparr>server = initial_store,
      recycledTasks = Some [[(''id'', JNum 1)], [(''id'', JNum 2)], [(''id'', JNum 1)]],
      clock = 0, net = []\<rparr>)) = [[(''id'', JNum 1)], [(''id'', JNum 2)], [(''id'', JNum 1)]]"
  using permanentlyDeleteTask_exact [of "JNum 1"
      "\<lparr>server = initial_store,
        recycledTasks = Some [[(''id'', JNum 1)], [(''id'', JNum 2)], [(''id'', JNum 1)]],
        clock = 0, net = []\<rparr>"]
    permanentlyDeleteTask_exact [of "JNum 3"
      "\<lparr>server = initial_store,
        recycledTasks = Some [[(''id'', JNum 1)], [(''id'', JNum 2)], [(''id'', JNum 1)]],
        clock = 0, net = []\<rparr>"]
  by (simp add: getRecycledTasks_def get_prop_def)

section \<open>Reading the task list\<close>

lemma route_GET: "route GET_todos now st = (\<lparr>status = 200, body = Json_array (todos st)\<rparr>, st)"
  by (simp add: route_def getAllTodos_def Todo_getAll_def)

lemma getTasks_eq:
  "getTasks w =
     (Inr (if next_event w = Delivered then todos (server w) else []), w\<lparr>net := tl (net w)\<rparr>)"
  by (cases "next_event w")
     (simp_all add: getTasks_def try_catch_def await_def fetch_def route_GET ok_def json_array_def
        ret_def throw_def Let_def)

lemma collect_dates_snoc:
  "collect_dates (tasks @ [task]) =
     (case get_prop task ''dueDate'' of
        None \<Rightarrow> collect_dates tasks
      | Some d \<Rightarrow> if truthy (Some d) then Set_add (collect_dates tasks) d else collect_dates tasks)"
  unfolding collect_dates_def by simp

lemma collect_dates_Nil: "collect_dates [] = []"
  by (simp add: collect_dates_def)

lemma collect_dates_distinct: "distinct (collect_dates tasks)"
  by (induction tasks rule: rev_induct)
     (auto simp: collect_dates_snoc collect_dates_Nil Set_add_def split: option.splits)

lemma collect_dates_set:
  "set (collect_dates tasks) =
     {d. \<exists>task\<in>set tasks. get_prop task ''dueDate'' = Some d \<and> truthy (Some d)}"
  by (induction tasks rule: rev_induct)
     (auto simp: collect_dates_snoc collect_dates_Nil Set_add_def split: option.splits)

lemma getDatesWithTasks_eq:
  "getDatesWithTasks w =
     (Inr (if next_event w = Delivered then collect_dates (todos (server w)) else []),
      w\<lparr>net := tl (net w)\<rparr>)"
  by (simp add: getDatesWithTasks_def try_catch_def await_def getTasks_eq ret_def collect_dates_def)

text \<open>
  Claim C6. When the read of the task list is delivered, \<^verbatim>\<open>getDatesWithTasks()\<close>
  returns a list without duplicates whose elements are exactly the due dates of the
  tasks of the store that have one: a due date that is absent, null or the empty string
  (what the form sends when no date is chosen) is no due date.
\<close>

theorem getDatesWithTasks_distinct_dates:
  assumes "next_event w = Delivered"
  shows "\<exists>dates. fst (getDatesWithTasks w) = Inr dates \<and> distinct dates \<and>
           set dates = {d. \<exists>task\<in>set (todos (server w)).
                             get_prop task ''dueDate'' = Some d \<and> truthy (Some d)}"
  using assms by (simp add: getDatesWithTasks_eq collect_dates_distinct collect_dates_set)

text \<open>The example of the spec: due dates 2024-01-05, 2024-01-05, 2024-02-01 and null.\<close>

theorem getDatesWithTasks_distinct_dates_witness:
  "next_event
     \<lparr>server = \<lparr>todos = [[(''id'', JNum 1), (''dueDate'', JStr ''2024-01-05'')],
                        [(''id'', JNum 2), (''dueDate'', JStr ''2024-01-05'')],
                        [(''id'', JNum 3), (''dueDate'', JStr ''2024-02-01'')],
                        [(''id'', JNum 4), (''dueDate'', JNull)]],
               nextId = 5\<rparr>,
      recycledTasks = None, clock = 0, net = []\<rparr> = Delivered \<and>
   fst (getDatesWithTasks
     \<lparr>server = \<lparr>todos = [[(''id'', JNum 1), (''dueDate'', JStr ''2024-01-05'')],
                        [(''id'', JNum 2), (''dueDate'', JStr ''2024-01-05'')],
                        [(''id'', JNum 3), (''dueDate'', JStr ''2024-02-01'')],
                        [(''id'', JNum 4), (''dueDate'', JNull)]],
               nextId = 5\<rparr>,
      recycledTasks = None, clock = 0, net = []\<rparr>) =
     Inr [JStr ''2024-01-05'', JStr ''2024-02-01'']"
proof -
  let ?w = "\<lparr>server = \<lparr>todos = [[(''id'', JNum 1), (''dueDate'', JStr ''2024-01-05'')],
                        [(''id'', JNum 2), (''dueDate'', JStr ''2024-01-05'')],
                        [(''id'', JNum 3), (''dueDate'', JStr ''2024-02-01'')],
                        [(''id'', JNum 4), (''dueDate'', JNull)]],
               nextId = 5\<rparr>,
      recycledTasks = None, clock = 0, net = []\<rparr>"
  have d: "next_event ?w = Delivered"
    by (simp add: next_event_def)
  have "fst (getDatesWithTasks ?w) = Inr [JStr ''2024-01-05'', JStr ''2024-02-01'']"
    using d by (simp add: getDatesWithTasks_eq)
      (simp add: collect_dates_def get_prop_def Set_add_def)
  with d getDatesWithTasks_distinct_dates [OF d] show ?thesis by simp
qed

section \<open>Ids in request paths\<close>

text \<open>
  The client writes a numeric id into the path with \<^verbatim>\<open>String\<close> and the server reads it
  back with \<^verbatim>\<open>parseInt\<close>: the server gets the number the client sent.
\<close>

lemma of_char_digit_char: "d < 10 \<Longrightarrow> (of_char (digit_char d) :: nat) = 48 + d"
  by (simp add: digit_char_def)

lemma digit_val_digit_char: "d < 10 \<Longrightarrow> digit_val (digit_char d) = Some d"
  by (simp add: digit_val_def of_char_digit_char)

definition is_digit :: "char \<Rightarrow> bool" where
  "is_digit c = (\<exists>d<10. c = digit_char d)"

lemma digits_all: "\<forall>c\<in>set (digits n). is_digit c"
proof (induction n rule: digits.induct)
  case (1 n)
  show ?case
  proof (cases "n < 10")
    case True
    then show ?thesis by (subst digits.simps) (auto simp: is_digit_def)
  next
    case False
    have "n mod 10 < 10" by simp
    then have "is_digit (digit_char (n mod 10))" unfolding is_digit_def by blast
    with 1 False show ?thesis by (subst digits.simps) auto
  qed
qed

lemma digits_not_Nil: "digits n \<noteq> []"
  by (subst digits.simps) simp

lemma read_digits_append:
  "\<forall>c\<in>set xs. is_digit c \<Longrightarrow>
   read_digits 10 acc (xs @ ys) = read_digits 10 (read_digits 10 acc xs) ys"
proof (induction xs arbitrary: acc)
  case Nil
  show ?case by simp
next
  case (Cons c xs)
  then obtain d where d: "d < 10" "c = digit_char d" by (auto simp: is_digit_def)
  with Cons show ?case by (simp add: digit_val_digit_char)
qed

lemma read_digits_digits: "read_digits 10 None (digits n) = Some n"
proof (induction n rule: digits.induct)
  case (1 n)
  show ?case
  proof (cases "n < 10")
    case True
    then show ?thesis by (subst digits.simps) (simp add: digit_val_digit_char)
  next
    case False
    have m: "n mod 10 < 10" by simp
    have "read_digits 10 None (digits (n div 10) @ [digit_char (n mod 10)]) =
          read_digits 10 (read_digits 10 None (digits (n div 10))) [digit_char (n mod 10)]"
      by (rule read_digits_append) (rule digits_all)
    also have "\<dots> = Some (n div 10 * 10 + n mod 10)"
      using 1 False by (simp add: digit_val_digit_char [OF m])
    finally show ?thesis using False by (subst digits.simps) simp
  qed
qed

lemma is_digit_facts:
  assumes "is_digit c"
  shows "\<not> is_space c" "c \<noteq> CHR ''-''" "c \<noteq> CHR ''+''" "c \<noteq> CHR ''x''" "c \<noteq> CHR ''X''"
proof -
  from assms obtain d where d: "d < 10" "c = digit_char d" by (auto simp: is_digit_def)
  then have o: "(of_char c :: nat) = 48 + d" by (simp add: of_char_digit_char)
  show "\<not> is_space c" using o d(1) by (auto simp: is_space_def)
  show "c \<noteq> CHR ''-''" using o d(1) by auto
  show "c \<noteq> CHR ''+''" using o d(1) by auto
  show "c \<noteq> CHR ''x''" using o d(1) by auto
  show "c \<noteq> CHR ''X''" using o d(1) by auto
qed

lemma parse_digits:
  assumes "\<forall>c\<in>set s. is_digit c" "s \<noteq> []"
  shows "strip_hex s = (10, s)" "strip_sign s = (False, s)" "dropWhile is_space s = s"
proof -
  from assms obtain c cs where s: "s = c # cs" by (cases s) auto
  with assms have c: "is_digit c" by simp
  show "strip_sign s = (False, s)" using is_digit_facts [OF c] s by simp
  show "dropWhile is_space s = s" using is_digit_facts [OF c] s by simp
  show "strip_hex s = (10, s)"
  proof (cases cs)
    case Nil
    with s show ?thesis by simp
  next
    case (Cons b bs)
    with assms s have "is_digit b" by simp
    from is_digit_facts [OF this] s Cons show ?thesis by simp
  qed
qed

lemma parseInt_String_of_int: "parseInt (String_of_int n) = Some n"
proof (cases "n < 0")
  case False
  have p: "strip_hex (digits (nat n)) = (10, digits (nat n))"
    "strip_sign (digits (nat n)) = (False, digits (nat n))"
    "dropWhile is_space (digits (nat n)) = digits (nat n)"
    by (rule parse_digits [OF digits_all digits_not_Nil])+
  show ?thesis using False
    by (simp add: parseInt_def String_of_int_def p read_digits_digits)
next
  case True
  have p: "strip_hex (digits (nat (- n))) = (10, digits (nat (- n)))"
    by (rule parse_digits [OF digits_all digits_not_Nil])
  show ?thesis using True
    by (simp add: parseInt_def String_of_int_def p read_digits_digits is_space_def)
qed


section \<open>What the recycle operation does\<close>

text \<open>
  \<^verbatim>\<open>deleteTask\<close> ends with a read of the task list on both of its paths, the try and
  the handler: it returns what \<^verbatim>\<open>getTasks\<close> returns in the world its body leaves.
\<close>

lemma upcoming_0: "upcoming w 0 = next_event w"
  by (simp add: upcoming_def next_event_def)

lemma next_event_upd [simp]:
  "next_event (w\<lparr>server := s\<rparr>) = next_event w"
  "next_event (w\<lparr>recycledTasks := r\<rparr>) = next_event w"
  "next_event (w\<lparr>clock := c\<rparr>) = next_event w"
  by (simp_all add: next_event_def)

lemma deleteTask_eq:
  "deleteTask taskId w =
     getTasks (snd ((case find (\<lambda>task. get_prop task ''id'' = Some taskId)
                          (if next_event w = Delivered then todos (server w) else []) of
                       None \<Rightarrow> ret ()
                     | Some taskToRecycle \<Rightarrow> recycle taskId taskToRecycle)
                    (w\<lparr>net := tl (net w)\<rparr>)))"
proof -
  define body where "body =
    (case find (\<lambda>task. get_prop task ''id'' = Some taskId)
                          (if next_event w = Delivered then todos (server w) else []) of
                       None \<Rightarrow> ret ()
                     | Some taskToRecycle \<Rightarrow> recycle taskId taskToRecycle)"
  obtain r w2 where b: "body (w\<lparr>net := tl (net w)\<rparr>) = (r, w2)" by (cases "body (w\<lparr>net := tl (net w)\<rparr>)")
  obtain x w3 where g: "getTasks w2 = (Inr x, w3)" by (simp add: getTasks_eq)
  have "deleteTask taskId w = getTasks w2"
    unfolding deleteTask_def try_catch_def await_def
    using b g by (cases r) (simp_all add: getTasks_eq body_def)
  then show ?thesis using b by (simp add: body_def)
qed

lemma route_DELETE:
  "route (DELETE_todo ident) now st =
     (case findIndex (has_id (parseInt ident)) (todos st) of
        None \<Rightarrow> (\<lparr>status = 404, body = Json_message ''Todo not found''\<rparr>, st)
      | Some i \<Rightarrow> (\<lparr>status = 204, body = No_body\<rparr>, st\<lparr>todos := splice1 i (todos st)\<rparr>))"
  by (simp add: route_def deleteTodo_def Todo_delete_def split: option.splits)

lemma recycle_world:
  "snd (recycle taskId task w) =
     w\<lparr>recycledTasks :=
          Some (getRecycledTasks w @ [set_prop task ''deletedAt'' (JStr (toISOString (clock w)))]),
       net := tl (net w),
       server := (if next_event w = Request_lost then server w
                  else snd (route (DELETE_todo (String_of taskId)) (clock w) (server w))),
       clock := (if next_event w = Delivered \<and>
                    ok (fst (route (DELETE_todo (String_of taskId)) (clock w) (server w)))
                 then clock w + 100 else clock w)\<rparr>"
  by (cases "next_event w")
     (simp_all add: recycle_def Let_def await_def fetch_def setItem_def throw_def sleep_def
        split_beta getRecycledTasks_def)


lemma find_absent:
  "\<forall>x\<in>set xs. \<not> p x \<Longrightarrow> find p (if c then xs else []) = None"
  by (simp add: find_None_iff)

section \<open>Recycling a task that is not in the store\<close>

text \<open>
  Claim C4. When no task of the store has the id, \<^verbatim>\<open>deleteTask(id)\<close> leaves the store
  and the recycle bin as they were and returns without throwing. What it returns is the
  refreshed task list: the current list of the store when that read is delivered (the
  empty list when it is not).
\<close>

theorem deleteTask_absent_noop:
  assumes "\<forall>todo\<in>set (todos (server w)). get_prop todo ''id'' \<noteq> Some taskId"
  shows "server (snd (deleteTask taskId w)) = server w \<and>
         recycledTasks (snd (deleteTask taskId w)) = recycledTasks w \<and>
         fst (deleteTask taskId w) =
           Inr (if upcoming w 1 = Delivered then todos (server w) else [])"
proof -
  have "find (\<lambda>task. get_prop task ''id'' = Some taskId)
          (if next_event w = Delivered then todos (server w) else []) = None"
    using assms by (intro find_absent) simp
  then have "deleteTask taskId w = getTasks (w\<lparr>net := tl (net w)\<rparr>)"
    by (simp add: deleteTask_eq ret_def)
  then show ?thesis
    by (simp add: getTasks_eq upcoming_def next_event_def drop_Suc)
qed

theorem deleteTask_absent_noop_witness:
  "server (snd (deleteTask (JNum 7) example_world)) = server example_world \<and>
   recycledTasks (snd (deleteTask (JNum 7) example_world)) = recycledTasks example_world \<and>
   fst (deleteTask (JNum 7) example_world) = Inr [example_task]"
proof -
  have a: "\<forall>todo\<in>set (todos (server example_world)). get_prop todo ''id'' \<noteq> Some (JNum 7)"
    by (simp add: example_world_def example_store_eq example_task_id)
  from deleteTask_absent_noop [OF a] show ?thesis
    by (simp add: example_upcoming) (simp add: example_world_def example_store_eq)
qed

section \<open>Recycling a task of the store\<close>

lemma find_distinct:
  "distinct (map f xs) \<Longrightarrow> x \<in> set xs \<Longrightarrow> find (\<lambda>y. f y = f x) xs = Some x"
  by (induction xs) (auto simp: image_iff)

lemma distinct_findIndex_splice1:
  assumes "distinct (map f xs)" "findIndex (\<lambda>x. f x = v) xs = Some i"
  shows "v \<notin> f ` set (splice1 i xs)"
proof -
  from findIndex_Some [OF assms(2)] have i: "i < length xs" "f (xs ! i) = v" by simp_all
  have "map f xs = take i (map f xs) @ v # drop (Suc i) (map f xs)"
    using i id_take_nth_drop [of i "map f xs"] by simp
  then have "distinct (take i (map f xs) @ v # drop (Suc i) (map f xs))"
    using assms(1) by simp
  then have "v \<notin> set (take i (map f xs) @ drop (Suc i) (map f xs))" by auto
  then show ?thesis
    by (simp add: splice1_def take_map drop_map image_Un)
qed

text \<open>
  Claim C3. Let \<open>T\<close> be a task of the store, in a state the store reaches, and let the
  first read of \<^verbatim>\<open>deleteTask(T.id)\<close> be delivered and its \<^verbatim>\<open>DELETE\<close> reach the server.
  When the call returns, \<open>T\<close> is not in the store and no task of the store has its id;
  the recycle bin has one more entry, at its end, which is \<open>T\<close> with \<^verbatim>\<open>deletedAt\<close> set to
  the clock's time at the call; and the call returns the refreshed list. This holds
  whether or not \<open>T\<close> has a due date.
\<close>

theorem deleteTask_recycles:
  assumes r: "reachable (server w)"
    and T: "T \<in> set (todos (server w))"
    and tid: "get_prop T ''id'' = Some taskId"
    and e0: "upcoming w 0 = Delivered"
    and e1: "upcoming w 1 \<noteq> Request_lost"
  shows "T \<notin> set (todos (server (snd (deleteTask taskId w)))) \<and>
         (\<forall>todo\<in>set (todos (server (snd (deleteTask taskId w)))).
            get_prop todo ''id'' \<noteq> Some taskId) \<and>
         getRecycledTasks (snd (deleteTask taskId w)) =
           getRecycledTasks w @ [set_prop T ''deletedAt'' (JStr (toISOString (clock w)))] \<and>
         get_prop (last (getRecycledTasks (snd (deleteTask taskId w)))) ''id'' = Some taskId \<and>
         get_prop (last (getRecycledTasks (snd (deleteTask taskId w)))) ''deletedAt'' =
           Some (JStr (toISOString (clock w))) \<and>
         fst (deleteTask taskId w) =
           Inr (if upcoming w 2 = Delivered
                then todos (server (snd (deleteTask taskId w))) else [])"
proof -
  let ?f = "\<lambda>todo. get_prop todo ''id''"
  let ?w1 = "w\<lparr>net := tl (net w)\<rparr>"
  have inv: "store_inv (server w)" using r by (rule reachable_store_inv)
  then have d: "distinct (map ?f (todos (server w)))" by (simp add: store_inv_def)
  have "id_below (nextId (server w)) (get_prop T ''id'')"
    using inv T by (simp add: store_inv_def list_all_iff)
  then obtain n where n: "taskId = JNum n"
    using tid by (auto simp: id_below_iff)
  have f: "find (\<lambda>task. get_prop task ''id'' = Some taskId) (todos (server w)) = Some T"
    using find_distinct [OF d T] tid by simp
  have ne: "next_event w = Delivered" using e0 by (simp add: upcoming_0)
  have ne1: "next_event ?w1 \<noteq> Request_lost"
    using e1 by (simp add: upcoming_def next_event_def drop_Suc)
  have dt: "deleteTask taskId w = getTasks (snd (recycle taskId T ?w1))"
    by (simp add: deleteTask_eq ne f)
  have hid: "has_id (parseInt (String_of taskId)) = (\<lambda>todo. ?f todo = Some taskId)"
    by (simp add: n parseInt_String_of_int has_id_def fun_eq_iff)
  have "findIndex (\<lambda>todo. ?f todo = Some taskId) (todos (server w)) \<noteq> None"
    using T tid by (auto simp: findIndex_None)
  then obtain i where i: "findIndex (\<lambda>todo. ?f todo = Some taskId) (todos (server w)) = Some i"
    by auto
  have srv: "server (snd (recycle taskId T ?w1)) =
             (server w)\<lparr>todos := splice1 i (todos (server w))\<rparr>"
    using ne1 by (simp add: recycle_world route_DELETE hid i)
  have gone: "Some taskId \<notin> ?f ` set (splice1 i (todos (server w)))"
    by (rule distinct_findIndex_splice1 [OF d i])
  have gone': "\<forall>todo\<in>set (splice1 i (todos (server w))). get_prop todo ''id'' \<noteq> Some taskId"
    using gone by (metis image_eqI)
  have bin: "getRecycledTasks (snd (recycle taskId T ?w1)) =
             getRecycledTasks w @ [set_prop T ''deletedAt'' (JStr (toISOString (clock w)))]"
    by (simp add: recycle_world getRecycledTasks_def)
  have nx: "next_event (snd (recycle taskId T ?w1)) = upcoming w 2"
    by (simp add: recycle_world upcoming_def next_event_def drop_Suc numeral_2_eq_2 drop_tl)
  have a: "T \<notin> set (todos (server (snd (deleteTask taskId w))))"
    using gone' tid by (auto simp: dt getTasks_eq srv)
  have b: "\<forall>todo\<in>set (todos (server (snd (deleteTask taskId w)))).
            get_prop todo ''id'' \<noteq> Some taskId"
    using gone' by (simp add: dt getTasks_eq srv)
  have c: "getRecycledTasks (snd (deleteTask taskId w)) =
           getRecycledTasks w @ [set_prop T ''deletedAt'' (JStr (toISOString (clock w)))]"
    using bin by (simp add: dt getTasks_eq getRecycledTasks_def)
  have e: "fst (deleteTask taskId w) =
           Inr (if upcoming w 2 = Delivered
                then todos (server (snd (deleteTask taskId w))) else [])"
    by (simp add: dt getTasks_eq nx)
  show ?thesis
    using a b e tid by (simp add: c get_prop_set_prop)
qed

theorem deleteTask_recycles_witness:
  "example_task \<notin> set (todos (server (snd (deleteTask (JNum 1) example_world)))) \<and>
   getRecycledTasks (snd (deleteTask (JNum 1) example_world)) =
     [example_task @ [(''deletedAt'', JStr (toISOString 1706745600000))]] \<and>
   fst (deleteTask (JNum 1) example_world) = Inr []"
proof -
  have r: "reachable (server example_world)"
    by (simp add: example_world_def example_store_reachable)
  have m: "example_task \<in> set (todos (server example_world))"
    by (simp add: example_world_def example_store_eq)
  have e1: "upcoming example_world 1 \<noteq> Request_lost" by (simp add: example_upcoming)
  have s: "set_prop example_task ''deletedAt'' (JStr (toISOString 1706745600000)) =
           example_task @ [(''deletedAt'', JStr (toISOString 1706745600000))]"
    by (simp add: set_prop_def example_task_def)
  have c: "clock example_world = 1706745600000" by (simp add: example_world_def)
  have g: "getRecycledTasks example_world = []"
    by (simp add: getRecycledTasks_def example_world_def)
  have t: "todos (server (snd (deleteTask (JNum 1) example_world))) = []"
    by (simp add: deleteTask_eq getTasks_eq recycle_world route_DELETE example_world_def
          example_store_eq next_event_def example_task_id has_id_def parseInt_String_of_int
          splice1_def)
  from deleteTask_recycles [OF r m example_task_id example_upcoming e1] show ?thesis
    by (simp add: example_upcoming s c g t)
qed

section \<open>Failures of the transport and of the storage\<close>

lemma recycle_st_world:
  "snd (recycle_st sf taskId task w) = (if sf = Stored then snd (recycle taskId task w) else w)"
  by (cases sf) (simp_all add: recycle_st_def throw_def)

lemma deleteTask_st_eq:
  "deleteTask_st sf taskId w =
     getTasks (snd ((case find (\<lambda>task. get_prop task ''id'' = Some taskId)
                          (if next_event w = Delivered then todos (server w) else []) of
                       None \<Rightarrow> ret ()
                     | Some taskToRecycle \<Rightarrow> recycle_st sf taskId taskToRecycle)
                    (w\<lparr>net := tl (net w)\<rparr>)))"
proof -
  define body where "body =
    (case find (\<lambda>task. get_prop task ''id'' = Some taskId)
                          (if next_event w = Delivered then todos (server w) else []) of
                       None \<Rightarrow> ret ()
                     | Some taskToRecycle \<Rightarrow> recycle_st sf taskId taskToRecycle)"
  obtain r w2 where b: "body (w\<lparr>net := tl (net w)\<rparr>) = (r, w2)"
    by (cases "body (w\<lparr>net := tl (net w)\<rparr>)")
  obtain x w3 where g: "getTasks w2 = (Inr x, w3)" by (simp add: getTasks_eq)
  have "deleteTask_st sf taskId w = getTasks w2"
    unfolding deleteTask_st_def try_catch_def await_def
    using b g by (cases r) (simp_all add: getTasks_eq body_def)
  then show ?thesis using b by (simp add: body_def)
qed

text \<open>When the storage does not fail, the operation is \<^verbatim>\<open>deleteTask\<close> as defined first.\<close>

lemma deleteTask_st_Stored: "deleteTask_st Stored taskId = deleteTask taskId"
proof -
  have r: "recycle_st Stored = recycle" by (simp add: fun_eq_iff recycle_st_def)
  show ?thesis unfolding deleteTask_st_def deleteTask_def r ..
qed

lemma upcoming_1:
  "upcoming w 1 = next_event (w\<lparr>net := tl (net w)\<rparr>)"
  "upcoming w (Suc 0) = next_event (w\<lparr>net := tl (net w)\<rparr>)"
  by (simp_all add: upcoming_def next_event_def drop_Suc)

lemma upcoming_2: "upcoming w 2 = next_event (w\<lparr>net := tl (tl (net w))\<rparr>)"
  by (simp add: upcoming_def next_event_def drop_Suc numeral_2_eq_2 drop_tl)

text \<open>
  Claim C5, as the code has it. \<^verbatim>\<open>getTasks()\<close> and \<^verbatim>\<open>deleteTask(id)\<close> return and never
  throw, whatever becomes of their requests and of the access to \<^verbatim>\<open>localStorage\<close>.
  \<^verbatim>\<open>getTasks()\<close> returns the list of the store when its request is delivered and the
  empty list when it is not. \<^verbatim>\<open>deleteTask(id)\<close> sends its \<^verbatim>\<open>DELETE\<close> when its first read
  found the task and the recycle bin was written, as the second request; it changes the
  store by that request alone, when it reached the server, and the bin by that write
  alone. Then it reads the list again, in the try or in the handler, and returns what this
  last request gives: the list of the store as the call leaves it when the read is
  delivered, the empty list when it is not. No list read earlier is kept to fall back on.
\<close>

theorem deleteTask_never_throws:
  fixes sf :: storage_event and taskId :: jv and w :: world
  defines "listed \<equiv> (if upcoming w 0 = Delivered then todos (server w) else [])"
  defines "found \<equiv> find (\<lambda>task. get_prop task ''id'' = Some taskId) listed"
  defines "sent \<equiv> (found \<noteq> None \<and> sf = Stored)"
  defines "after \<equiv> snd (deleteTask_st sf taskId w)"
  shows "fst (getTasks w) = Inr listed \<and>
         fst (deleteTask_st sf taskId w) =
           Inr (if upcoming w (if sent then 2 else 1) = Delivered
                then todos (server after) else []) \<and>
         server after =
           (if sent \<and> upcoming w 1 \<noteq> Request_lost
            then snd (route (DELETE_todo (String_of taskId)) (clock w) (server w))
            else server w) \<and>
         recycledTasks after =
           (if sent
            then Some (getRecycledTasks w @
                   [set_prop (the found) ''deletedAt'' (JStr (toISOString (clock w)))])
            else recycledTasks w) \<and>
         deleteTask_st Stored taskId w = deleteTask taskId w"
proof -
  let ?w1 = "w\<lparr>net := tl (net w)\<rparr>"
  have l: "listed = (if next_event w = Delivered then todos (server w) else [])"
    by (simp add: listed_def upcoming_0)
  have g: "fst (getTasks w) = Inr listed" by (simp add: getTasks_eq l)
  have s: "deleteTask_st Stored taskId w = deleteTask taskId w"
    by (simp add: deleteTask_st_Stored)
  have "fst (deleteTask_st sf taskId w) =
           Inr (if upcoming w (if sent then 2 else 1) = Delivered
                then todos (server after) else []) \<and>
         server after =
           (if sent \<and> upcoming w 1 \<noteq> Request_lost
            then snd (route (DELETE_todo (String_of taskId)) (clock w) (server w))
            else server w) \<and>
         recycledTasks after =
           (if sent
            then Some (getRecycledTasks w @
                   [set_prop (the found) ''deletedAt'' (JStr (toISOString (clock w)))])
            else recycledTasks w)"
  proof (cases found)
    case None
    then have "deleteTask_st sf taskId w = getTasks ?w1"
      using l by (simp add: deleteTask_st_eq found_def ret_def)
    then show ?thesis
      using None by (simp add: after_def sent_def getTasks_eq upcoming_1)
  next
    case (Some T)
    then have d: "deleteTask_st sf taskId w = getTasks (snd (recycle_st sf taskId T ?w1))"
      using l by (simp add: deleteTask_st_eq found_def)
    show ?thesis
    proof (cases "sf = Stored")
      case True
      have d': "deleteTask_st Stored taskId w = getTasks (snd (recycle taskId T ?w1))"
        using d True by (simp add: recycle_st_def)
      show ?thesis
        using Some True
        by (simp add: d' after_def sent_def getTasks_eq recycle_st_world recycle_world
              upcoming_1 upcoming_2 getRecycledTasks_def next_event_def)
    next
      case False
      then show ?thesis
        using Some
        by (simp add: d after_def sent_def getTasks_eq recycle_st_world upcoming_1)
    qed
  qed
  then show ?thesis using g s by simp
qed

text \<open>
  In the example state, with \<^verbatim>\<open>setItem\<close> failing: the task was found, no \<^verbatim>\<open>DELETE\<close> is
  sent, store and bin stay as they were, and the call returns the list of the store.
\<close>

theorem deleteTask_never_throws_witness:
  "fst (getTasks example_world) = Inr [example_task] \<and>
   fst (deleteTask_st Write_error (JNum 1) example_world) = Inr [example_task] \<and>
   server (snd (deleteTask_st Write_error (JNum 1) example_world)) = example_store \<and>
   recycledTasks (snd (deleteTask_st Write_error (JNum 1) example_world)) = None"
  using deleteTask_never_throws
    [where w = example_world and sf = Write_error and taskId = "JNum 1"]
  by (simp add: example_upcoming) (simp add: example_world_def example_store_eq)

text \<open>
  The claim as the spec states it promises the last-known list. Here the store holds one
  task; the first read of \<^verbatim>\<open>deleteTask\<close> is delivered and returns it, the \<^verbatim>\<open>DELETE\<close> and
  the refreshing read are lost. The task is still in the store, and the call returns the
  empty list.
\<close>

theorem deleteTask_last_known_counterexample:
  "fst (getTasks
     \<lparr>server = \<lparr>todos = [[(''id'', JNum 1), (''title'', JStr ''a'')]], nextId = 2\<rparr>,
      recycledTasks = None, clock = 0, net = [Delivered, Request_lost, Request_lost]\<rparr>) =
     Inr [[(''id'', JNum 1), (''title'', JStr ''a'')]] \<and>
   fst (deleteTask (JNum 1)
     \<lparr>server = \<lparr>todos = [[(''id'', JNum 1), (''title'', JStr ''a'')]], nextId = 2\<rparr>,
      recycledTasks = None, clock = 0, net = [Delivered, Request_lost, Request_lost]\<rparr>) =
     Inr [] \<and>
   todos (server (snd (deleteTask (JNum 1)
     \<lparr>server = \<lparr>todos = [[(''id'', JNum 1), (''title'', JStr ''a'')]], nextId = 2\<rparr>,
      recycledTasks = None, clock = 0, net = [Delivered, Request_lost, Request_lost]\<rparr>))) =
     [[(''id'', JNum 1), (''title'', JStr ''a'')]]"
  by (simp add: deleteTask_eq getTasks_eq recycle_world next_event_def get_prop_def)

section \<open>Restoring a task from the recycle bin\<close>

lemma route_POST:
  "route (POST_todos task) now st =
     (if \<not> truthy (get_prop task ''title'')
      then (\<lparr>status = 400, body = Json_message ''Title is required''\<rparr>, st)
      else (\<lparr>status = 201, body = Json_object (fst (Todo_create task now st))\<rparr>,
            snd (Todo_create task now st)))"
  by (simp add: route_def createTodo_def split_beta)

lemma addTask_eq:
  "addTask task w =
     getTasks (w\<lparr>net := tl (net w),
                server := (if next_event w = Request_lost then server w
                           else snd (route (POST_todos task) (clock w) (server w)))\<rparr>)"
proof -
  obtain r w2 where f: "fetch (POST_todos task) w = (r, w2)" by (cases "fetch (POST_todos task) w")
  have w2: "w2 = w\<lparr>net := tl (net w),
                server := (if next_event w = Request_lost then server w
                           else snd (route (POST_todos task) (clock w) (server w)))\<rparr>"
    using f by (cases "next_event w") (auto simp: fetch_def Let_def split_beta)
  have "addTask task w = getTasks w2"
    unfolding addTask_def try_catch_def await_def
    using f by (cases r) (simp_all add: getTasks_eq throw_def)
  then show ?thesis by (simp add: w2)
qed

lemma restoreTask_eq:
  assumes "findIndex (\<lambda>task. get_prop task ''id'' = Some taskId) (getRecycledTasks w) = Some i"
  shows "restoreTask taskId w =
     (Inr (splice1 i (getRecycledTasks w)),
      w\<lparr>net := tl (tl (net w)),
        server := (if next_event w = Request_lost then server w
                   else snd (route (POST_todos
                          (delete_prop (spread [] (getRecycledTasks w ! i)) ''deletedAt''))
                          (clock w) (server w))),
        recycledTasks := Some (splice1 i (getRecycledTasks w))\<rparr>)"
  using assms
  by (simp add: restoreTask_def Let_def await_def addTask_eq getTasks_eq setItem_def)

lemma get_prop_restored:
  "get_prop (delete_prop (spread [] R) ''deletedAt'') k =
     (if k = ''deletedAt'' then None else get_prop R k)"
  by (simp add: get_prop_delete_prop get_prop_copy)

lemma length_splice1: "i < length xs \<Longrightarrow> Suc (length (splice1 i xs)) = length xs"
  by (simp add: splice1_def)

text \<open>
  A recycle bin holding one entry, a task that was given a category before it was
  recycled, in front of a store that no longer has it.
\<close>

definition example_recycled :: obj where
  "example_recycled =
     [(''id'', JNum 1), (''title'', JStr ''Pay rent''), (''description'', JStr []),
      (''dueDate'', JStr ''2024-01-05''), (''completed'', JBool False),
      (''createdAt'', JStr (toISOString 0)), (''category'', JStr ''work''),
      (''deletedAt'', JStr ''2024-02-01T00:00:00.000Z'')]"

definition example_bin_world :: world where
  "example_bin_world =
     \<lparr>server = \<lparr>todos = [], nextId = 2\<rparr>, recycledTasks = Some [example_recycled],
      clock = 1709337600000, net = []\<rparr>"

lemma example_bin: "getRecycledTasks example_bin_world = [example_recycled]"
  by (simp add: getRecycledTasks_def example_bin_world_def)

lemma example_bin_index:
  "findIndex (\<lambda>task. get_prop task ''id'' = Some (JNum 1)) (getRecycledTasks example_bin_world) =
     Some 0"
  by (simp add: example_bin example_recycled_def get_prop_def)

text \<open>
  What \<^verbatim>\<open>restoreTask\<close> does with the first entry \<open>R\<close> of the bin that has the id, when
  \<open>R\<close> has a title and the \<^verbatim>\<open>POST\<close> reaches the server: the entry is posted whole but for
  \<^verbatim>\<open>deletedAt\<close>, and \<^verbatim>\<open>Todo.create\<close> builds the new task from its title, description
  and due date alone. \<open>R\<close> is taken out of the bin.
\<close>

lemma restoreTask_delivered:
  assumes i: "findIndex (\<lambda>task. get_prop task ''id'' = Some taskId) (getRecycledTasks w) = Some i"
    and title: "truthy (get_prop (getRecycledTasks w ! i) ''title'')"
    and net: "upcoming w 0 \<noteq> Request_lost"
  shows "todos (server (snd (restoreTask taskId w))) =
           todos (server w) @ [last (todos (server (snd (restoreTask taskId w))))] \<and>
         get_prop (last (todos (server (snd (restoreTask taskId w))))) ''title'' =
           get_prop (getRecycledTasks w ! i) ''title'' \<and>
         get_prop (last (todos (server (snd (restoreTask taskId w))))) ''description'' =
           Some (default_arg (get_prop (getRecycledTasks w ! i) ''description'') (JStr [])) \<and>
         get_prop (last (todos (server (snd (restoreTask taskId w))))) ''dueDate'' =
           Some (default_arg (get_prop (getRecycledTasks w ! i) ''dueDate'') JNull) \<and>
         get_prop (last (todos (server (snd (restoreTask taskId w))))) ''category'' = None \<and>
         getRecycledTasks (snd (restoreTask taskId w)) = splice1 i (getRecycledTasks w) \<and>
         fst (restoreTask taskId w) = Inr (splice1 i (getRecycledTasks w)) \<and>
         length (todos (server (snd (restoreTask taskId w)))) = length (todos (server w)) + 1 \<and>
         length (getRecycledTasks (snd (restoreTask taskId w))) + 1 =
           length (getRecycledTasks w)"
proof -
  have n: "next_event w \<noteq> Request_lost" using net by (simp add: upcoming_0)
  have l: "i < length (getRecycledTasks w)" using findIndex_Some [OF i] by simp
  show ?thesis
    using n title length_splice1 [OF l]
    by (simp add: restoreTask_eq [OF i] route_POST get_prop_restored Todo_create_eq
          get_prop_Todo_new getRecycledTasks_def)
qed

text \<open>
  When the \<^verbatim>\<open>POST\<close> does not reach the server, or the server rejects it for its empty
  title, \<^verbatim>\<open>addTask\<close> catches the failure and returns; \<^verbatim>\<open>restoreTask\<close> goes on to
  splice the entry out of the bin. No task is created.
\<close>

lemma restoreTask_not_created:
  assumes i: "findIndex (\<lambda>task. get_prop task ''id'' = Some taskId) (getRecycledTasks w) = Some i"
    and failed: "upcoming w 0 = Request_lost \<or> \<not> truthy (get_prop (getRecycledTasks w ! i) ''title'')"
  shows "server (snd (restoreTask taskId w)) = server w \<and>
         getRecycledTasks (snd (restoreTask taskId w)) = splice1 i (getRecycledTasks w) \<and>
         fst (restoreTask taskId w) = Inr (splice1 i (getRecycledTasks w))"
  using failed
  by (auto simp: restoreTask_eq [OF i] route_POST get_prop_restored upcoming_0
        getRecycledTasks_def)

text \<open>
  Claim C2 fails in the code. The recycle bin holds one entry, whose category is
  \<^verbatim>\<open>"work"\<close>, and every request is delivered. \<^verbatim>\<open>restoreTask(1)\<close> posts the entry without
  its \<^verbatim>\<open>deletedAt\<close>, the category included. The entry leaves the bin and the store gains
  one task, which has the entry's title, description and due date, and no category.
\<close>

theorem restoreTask_drops_category:
  "getRecycledTasks example_bin_world = [example_recycled] \<and>
   get_prop example_recycled ''category'' = Some (JStr ''work'') \<and>
   get_prop (delete_prop (spread [] example_recycled) ''deletedAt'') ''category'' =
     Some (JStr ''work'') \<and>
   fst (restoreTask (JNum 1) example_bin_world) = Inr [] \<and>
   getRecycledTasks (snd (restoreTask (JNum 1) example_bin_world)) = [] \<and>
   todos (server (snd (restoreTask (JNum 1) example_bin_world))) =
     [[(''id'', JNum 2), (''title'', JStr ''Pay rent''), (''description'', JStr []),
       (''dueDate'', JStr ''2024-01-05''), (''completed'', JBool False),
       (''createdAt'', JStr (toISOString 1709337600000))]] \<and>
   get_prop (last (todos (server (snd (restoreTask (JNum 1) example_bin_world)))))
     ''category'' = None"
proof -
  have c: "get_prop example_recycled ''category'' = Some (JStr ''work'')"
    by (simp add: example_recycled_def get_prop_def)
  have g: "get_prop example_recycled ''title'' = Some (JStr ''Pay rent'')"
    "get_prop example_recycled ''description'' = Some (JStr [])"
    "get_prop example_recycled ''dueDate'' = Some (JStr ''2024-01-05'')"
    by (simp_all add: example_recycled_def get_prop_def)
  have n: "next_event example_bin_world = Delivered"
    "server example_bin_world = \<lparr>todos = [], nextId = 2\<rparr>"
    "clock example_bin_world = 1709337600000"
    by (simp_all add: next_event_def example_bin_world_def)
  have s: "snd (restoreTask (JNum 1) example_bin_world) =
     example_bin_world\<lparr>net := tl (tl (net example_bin_world)),
       server := \<lparr>todos = [[(''id'', JNum 2), (''title'', JStr ''Pay rent''),
          (''description'', JStr []), (''dueDate'', JStr ''2024-01-05''),
          (''completed'', JBool False), (''createdAt'', JStr (toISOString 1709337600000))]],
          nextId = 3\<rparr>,
       recycledTasks := Some []\<rparr>"
    by (simp add: restoreTask_eq [OF example_bin_index] example_bin n route_POST
          get_prop_restored g Todo_create_eq Todo_new_def opt_prop_def default_arg_def
          splice1_def)
  have f: "fst (restoreTask (JNum 1) example_bin_world) = Inr []"
    by (simp add: restoreTask_eq [OF example_bin_index] example_bin splice1_def)
  have r: "getRecycledTasks (snd (restoreTask (JNum 1) example_bin_world)) = []"
    by (simp add: s getRecycledTasks_def)
  have t: "todos (server (snd (restoreTask (JNum 1) example_bin_world))) =
     [[(''id'', JNum 2), (''title'', JStr ''Pay rent''), (''description'', JStr []),
       (''dueDate'', JStr ''2024-01-05''), (''completed'', JBool False),
       (''createdAt'', JStr (toISOString 1709337600000))]]"
    by (simp add: s)
  show ?thesis
    by (simp add: example_bin c get_prop_restored f r t) (simp add: get_prop_def)
qed

text \<open>
  The same bin with the browser offline: the \<^verbatim>\<open>POST\<close> is lost. The entry leaves the bin
  all the same, and the store stays empty.
\<close>

definition example_offline_world :: world where
  "example_offline_world = example_bin_world\<lparr>net := [Request_lost]\<rparr>"

lemma restoreTask_request_lost:
  "getRecycledTasks example_offline_world = [example_recycled] \<and>
   todos (server example_offline_world) = [] \<and>
   fst (restoreTask (JNum 1) example_offline_world) = Inr [] \<and>
   getRecycledTasks (snd (restoreTask (JNum 1) example_offline_world)) = [] \<and>
   todos (server (snd (restoreTask (JNum 1) example_offline_world))) = []"
proof -
  have b: "getRecycledTasks example_offline_world = [example_recycled]"
    by (simp add: getRecycledTasks_def example_offline_world_def example_bin_world_def)
  have i: "findIndex (\<lambda>task. get_prop task ''id'' = Some (JNum 1))
             (getRecycledTasks example_offline_world) = Some 0"
    by (simp add: b example_recycled_def get_prop_def)
  have n: "next_event example_offline_world = Request_lost"
    "server example_offline_world = \<lparr>todos = [], nextId = 2\<rparr>"
    by (simp_all add: next_event_def example_offline_world_def example_bin_world_def)
  have s: "snd (restoreTask (JNum 1) example_offline_world) =
     example_offline_world\<lparr>net := tl (tl (net example_offline_world)),
       server := \<lparr>todos = [], nextId = 2\<rparr>, recycledTasks := Some []\<rparr>"
    by (simp add: restoreTask_eq [OF i] b n splice1_def)
  have r: "getRecycledTasks (snd (restoreTask (JNum 1) example_offline_world)) = []"
    by (simp add: s getRecycledTasks_def)
  have f: "fst (restoreTask (JNum 1) example_offline_world) = Inr []"
    by (simp add: restoreTask_eq [OF i] b splice1_def)
  have t: "todos (server (snd (restoreTask (JNum 1) example_offline_world))) = []"
    by (simp add: s)
  show ?thesis
    by (simp add: b n f r t)
qed

section \<open>Cleaning up the recycle bin\<close>

lemma MonthFromTime_bounds: "0 \<le> MonthFromTime t" "MonthFromTime t \<le> 11"
  by (simp_all add: MonthFromTime_def Let_def)

lemma MakeDay_of_time:
  "MakeDay (YearFromTime t) (MonthFromTime t) d = Day t + (d - DateFromTime t)"
proof -
  have "MonthFromTime t div 12 = 0" "MonthFromTime t mod 12 = MonthFromTime t"
    using MonthFromTime_bounds [of t] by simp_all
  then show ?thesis
    by (simp add: MakeDay_def DateFromTime_def DayWithinYear_def InLeapYear_def Let_def)
qed

lemma setDate_back: "setDate t (getDate t - k) = t - k * msPerDay"
proof -
  have "t = Day t * msPerDay + t mod msPerDay" by (simp add: Day_def)
  then show ?thesis
    by (simp add: setDate_def getDate_def MakeDay_of_time algebra_simps)
qed

lemma thirtyDaysAgo_eq: "thirtyDaysAgo w = clock w - 2592000000"
  by (simp add: thirtyDaysAgo_def setDate_back msPerDay_def)

lemma cleanupRecycleBin_eq:
  "cleanupRecycleBin parse w =
     (filter (\<lambda>task. date_gt (Date_of parse (get_prop task ''deletedAt''))
                              (Some (clock w - 2592000000)))
             (getRecycledTasks w),
      w\<lparr>recycledTasks :=
          Some (filter (\<lambda>task. date_gt (Date_of parse (get_prop task ''deletedAt''))
                                       (Some (clock w - 2592000000)))
                       (getRecycledTasks w))\<rparr>)"
  by (simp add: cleanupRecycleBin_def Let_def thirtyDaysAgo_eq setItem_def)

text \<open>
  What the code keeps: the entries whose \<^verbatim>\<open>deletedAt\<close> reads as a time strictly after
  the cutoff. An entry at the cutoff, or before it, or whose \<^verbatim>\<open>deletedAt\<close> is no date, is
  removed.
\<close>

lemma cleanupRecycleBin_keeps_iff:
  "task \<in> set (fst (cleanupRecycleBin parse w)) \<longleftrightarrow>
     task \<in> set (getRecycledTasks w) \<and>
     (\<exists>t. Date_of parse (get_prop task ''deletedAt'') = Some t \<and> clock w - 30 * msPerDay < t)"
  by (auto simp: cleanupRecycleBin_eq date_gt_def msPerDay_def split: option.splits)

text \<open>Evaluating \<^verbatim>\<open>toISOString\<close> at the time of the example.\<close>

lemma Year_2024_02_01: "YearFromTime 1706745600000 = 2024"
  unfolding YearFromTime_def
  by (rule YearFromDay_unique) (simp_all add: Day_def msPerDay_def DayFromYear_def DaysInYear_def)

lemma digit_char_eq: "d < 10 \<Longrightarrow> (of_char c :: nat) = 48 + d \<Longrightarrow> digit_char d = c"
proof -
  assume d: "d < 10" and c: "(of_char c :: nat) = 48 + d"
  have "(of_char (digit_char d) :: nat) = of_char c" using d c by (simp add: digit_char_def)
  then show ?thesis by simp
qed

lemma digit_chars:
  "digit_char 0 = CHR ''0''" "digit_char 1 = CHR ''1''" "digit_char 2 = CHR ''2''"
  "digit_char 3 = CHR ''3''" "digit_char 4 = CHR ''4''" "digit_char 5 = CHR ''5''"
  "digit_char 6 = CHR ''6''" "digit_char 7 = CHR ''7''" "digit_char 8 = CHR ''8''"
  "digit_char 9 = CHR ''9''" "digit_char (Suc 0) = CHR ''1''"
  by (rule digit_char_eq; simp)+


lemma digits_small: "n < 10 \<Longrightarrow> digits n = [digit_char n]"
  by (subst digits.simps) simp

lemma digits_big: "\<not> n < 10 \<Longrightarrow> digits n = digits (n div 10) @ [digit_char (n mod 10)]"
  by (subst digits.simps) simp

lemma replicate_small:
  "replicate 1 c = [c]" "replicate 2 c = [c, c]" "replicate 3 c = [c, c, c]"
  by (simp_all add: eval_nat_numeral)

lemma toISOString_2024_02_01: "toISOString 1706745600000 = ''2024-02-01T00:00:00.000Z''"
  apply (simp add: toISOString_def Year_2024_02_01 MonthFromTime_def DateFromTime_def
      DayWithinYear_def InLeapYear_def Let_def Day_def msPerDay_def DayFromYear_def
      DaysInYear_def month_start_def year_string_def)
  apply (simp add: pad_nat_def padStart0_def digits_small digits_big digit_chars replicate_small)
  done

text \<open>
  The runtime's date parser at the one date string the example holds.
\<close>

definition example_parse :: "string \<Rightarrow> int option" where
  "example_parse s = (if s = ''2024-02-01T00:00:00.000Z'' then Some 1706745600000 else None)"

text \<open>
  Claim C1 at its boundary. The clock of \<open>example_bin_world\<close> reads 2 March 2024,
  00:00:00.000 UTC; thirty days earlier is 1 February 2024, 00:00:00.000 UTC, and that
  is the \<^verbatim>\<open>deletedAt\<close> of the one entry of the bin. The comment over
  \<^verbatim>\<open>cleanupRecycleBin\<close> says it removes what is older than 30 days, and the entry is not
  older; the filter keeps what is strictly newer, and removes it.
\<close>

theorem cleanupRecycleBin_boundary_removed:
  "clock example_bin_world - 30 * msPerDay = 1706745600000 \<and>
   toISOString 1706745600000 = ''2024-02-01T00:00:00.000Z'' \<and>
   get_prop example_recycled ''deletedAt'' = Some (JStr ''2024-02-01T00:00:00.000Z'') \<and>
   getRecycledTasks example_bin_world = [example_recycled] \<and>
   fst (cleanupRecycleBin example_parse example_bin_world) = [] \<and>
   getRecycledTasks (snd (cleanupRecycleBin example_parse example_bin_world)) = []"
proof -
  have d: "get_prop example_recycled ''deletedAt'' = Some (JStr ''2024-02-01T00:00:00.000Z'')"
    by (simp add: example_recycled_def get_prop_def)
  have c: "clock example_bin_world = 1709337600000" by (simp add: example_bin_world_def)
  have g: "getRecycledTasks (w\<lparr>recycledTasks := Some ts\<rparr>) = ts" for w ts
    by (simp add: getRecycledTasks_def)
  show ?thesis
    by (simp add: cleanupRecycleBin_eq example_bin d c example_parse_def date_gt_def
          msPerDay_def toISOString_2024_02_01 g)
qed

section \<open>The month grid\<close>

lemma Day_of_days [simp]: "Day (d * msPerDay) = d"
  by (simp add: Day_def msPerDay_def)

lemma DaysInYear_flag: "DaysInYear y = 365 + leap_flag y"
  by (simp add: leap_flag_def DaysInYear_def)

lemma month_cases:
  assumes "0 \<le> m" "m \<le> 11"
  obtains "m = 0" | "m = 1" | "m = 2" | "m = 3" | "m = 4" | "m = 5" | "m = 6" | "m = 7"
    | "m = 8" | "m = 9" | "m = 10" | "m = (11::int)"
proof -
  have "m = 0 \<or> m = 1 \<or> m = 2 \<or> m = 3 \<or> m = 4 \<or> m = 5 \<or> m = 6 \<or> m = 7 \<or> m = 8 \<or>
        m = 9 \<or> m = 10 \<or> m = 11"
    using assms by arith
  then show thesis using that by blast
qed

lemma leap_flag_cases: "leap_flag y = 0 \<or> leap_flag y = 1"
  by (simp add: leap_flag_def)

lemma civil_roundtrip:
  assumes m: "0 \<le> m" "m \<le> 11" and d: "1 \<le> d" "d \<le> days_in_month y m"
  defines "t \<equiv> (DayFromYear y + month_start (leap_flag y) m + d - 1) * msPerDay"
  shows "YearFromTime t = y" "MonthFromTime t = m" "DateFromTime t = d"
proof -
  have lf: "leap_flag y = 0 \<or> leap_flag y = 1" by (rule leap_flag_cases)
  have in_year: "0 \<le> month_start (leap_flag y) m + d - 1 \<and>
                 month_start (leap_flag y) m + d - 1 < 365 + leap_flag y"
    using m d lf by (cases m rule: month_cases) (auto simp: month_start_def days_in_month_def)
  have y: "YearFromDay (DayFromYear y + month_start (leap_flag y) m + d - 1) = y"
    by (rule YearFromDay_unique) (use in_year in \<open>simp_all add: DaysInYear_flag\<close>)
  show Y: "YearFromTime t = y" by (simp add: t_def YearFromTime_def y)
  have dw: "DayWithinYear t = month_start (leap_flag y) m + d - 1"
    by (simp add: DayWithinYear_def Y) (simp add: t_def)
  have il: "InLeapYear t = leap_flag y" by (simp add: InLeapYear_def Y leap_flag_def)
  show M: "MonthFromTime t = m"
    using m d lf
    by (cases m rule: month_cases)
       (auto simp: MonthFromTime_def dw il Let_def month_start_def days_in_month_def)
  show "DateFromTime t = d" by (simp add: DateFromTime_def dw il M)
qed


lemma MakeDay_in_year:
  "0 \<le> m \<Longrightarrow> m \<le> 11 \<Longrightarrow>
   MakeDay y m d = DayFromYear y + month_start (leap_flag y) m + d - 1"
  by (simp add: MakeDay_def Let_def leap_flag_def)

lemma Date_ymd_in_month:
  assumes "0 \<le> m" "m \<le> 11" "1 \<le> d"
    "d \<le> days_in_month (if 0 \<le> year \<and> year \<le> 99 then 1900 + year else year) m"
  shows "YearFromTime (Date_ymd year m d) = (if 0 \<le> year \<and> year \<le> 99 then 1900 + year else year)"
    "MonthFromTime (Date_ymd year m d) = m" "DateFromTime (Date_ymd year m d) = d"
  unfolding Date_ymd_def MakeDay_in_year [OF assms(1,2)]
  by (rule civil_roundtrip [OF assms])+

lemma days_in_month_bounds: "28 \<le> days_in_month y m" "days_in_month y m \<le> 31"
  using leap_flag_cases [of y] by (auto simp: days_in_month_def)

lemma last_day_of_month:
  assumes m: "0 \<le> m" "m \<le> 11"
  shows "getDate (Date_ymd year (m + 1) 0) =
           days_in_month (if 0 \<le> year \<and> year \<le> 99 then 1900 + year else year) m"
proof -
  define y where "y = (if 0 \<le> year \<and> year \<le> 99 then 1900 + year else year)"
  have lf: "leap_flag y = 0 \<or> leap_flag y = 1" by (rule leap_flag_cases)
  have "MakeDay y (m + 1) 0 =
        DayFromYear y + month_start (leap_flag y) m + days_in_month y m - 1"
  proof (cases "m = 11")
    case True
    have "MakeDay y 12 0 = DayFromYear (y + 1) - 1"
      by (simp add: MakeDay_def Let_def month_start_def)
    then show ?thesis
      using True by (simp add: DayFromYear_Suc DaysInYear_flag month_start_def days_in_month_def)
  next
    case False
    then have b: "0 \<le> m + 1" "m + 1 \<le> 11" using m by simp_all
    show ?thesis
      unfolding MakeDay_in_year [OF b]
      using m False by (cases m rule: month_cases) (simp_all add: month_start_def days_in_month_def)
  qed
  then have "Date_ymd year (m + 1) 0 =
             (DayFromYear y + month_start (leap_flag y) m + days_in_month y m - 1) * msPerDay"
    by (simp add: Date_ymd_def y_def)
  moreover have "1 \<le> days_in_month y m" using days_in_month_bounds(1) [of y m] by simp
  ultimately show ?thesis
    using civil_roundtrip(3) [OF m, of "days_in_month y m" y]
    by (simp add: getDate_def y_def)
qed

lemma WeekDay_bounds: "0 \<le> WeekDay t" "WeekDay t \<le> 6"
  by (simp_all add: WeekDay_def) 

lemma className_current_day:
  "className (current_day cal now dates year month i) \<noteq> ''day other-month''"
  by (simp add: current_day_def createDayElement_def Let_def)

lemma current_day_fields:
  "textContent (current_day cal now dates year month i) = i"
  "dataset_date (current_day cal now dates year month i) =
     Some (formatDate (Date_ymd year month i))"
  by (simp_all add: current_day_def createDayElement_def Let_def)


lemma generateCalendar_eq:
  "generateCalendar cal w =
     (Inr (map (\<lambda>i. createDayElement
                  (getDate (Date_ymd (getFullYear (currentDate cal)) (getMonth (currentDate cal)) 0) - i)
                  ''other-month'')
             (rev [0..getDay (Date_ymd (getFullYear (currentDate cal)) (getMonth (currentDate cal)) 1) - 1]) @
           map (current_day cal (clock w)
                  (if next_event w = Delivered then collect_dates (todos (server w)) else [])
                  (getFullYear (currentDate cal)) (getMonth (currentDate cal)))
             [1..getDate (Date_ymd (getFullYear (currentDate cal)) (getMonth (currentDate cal) + 1) 0)] @
           map (\<lambda>i. createDayElement i ''other-month'')
             [1..42 - (getDay (Date_ymd (getFullYear (currentDate cal)) (getMonth (currentDate cal)) 1) +
                       getDate (Date_ymd (getFullYear (currentDate cal)) (getMonth (currentDate cal) + 1) 0))]),
      w\<lparr>net := tl (net w)\<rparr>)"
  by (simp add: generateCalendar_def Let_def await_def getDatesWithTasks_eq)

lemma grid_cells:
  fixes P C F :: "day_element list" and s n :: nat
  assumes lp: "length P = s" and lc: "length C = n" and lf: "length F = 42 - (s + n)"
    and sn: "s + n \<le> 42"
    and p: "\<And>i. i < s \<Longrightarrow> className (P ! i) = ''day other-month''"
    and c: "\<And>i. i < n \<Longrightarrow> textContent (C ! i) = int i + 1 \<and>
              className (C ! i) \<noteq> ''day other-month'' \<and> dataset_date (C ! i) = Some (g (int i + 1))"
    and f: "\<And>i. i < 42 - (s + n) \<Longrightarrow> className (F ! i) = ''day other-month'' \<and>
              textContent (F ! i) = int i + 1"
  shows "length (P @ C @ F) = 42 \<and>
         (\<forall>i<s. className ((P @ C @ F) ! i) = ''day other-month'') \<and>
         (\<forall>i<n. textContent ((P @ C @ F) ! (s + i)) = int i + 1 \<and>
                 className ((P @ C @ F) ! (s + i)) \<noteq> ''day other-month'' \<and>
                 dataset_date ((P @ C @ F) ! (s + i)) = Some (g (int i + 1))) \<and>
         (\<forall>i. s + n \<le> i \<and> i < 42 \<longrightarrow>
              className ((P @ C @ F) ! i) = ''day other-month'' \<and>
              textContent ((P @ C @ F) ! i) = int (i - (s + n)) + 1)"
proof (intro conjI allI impI)
  show "length (P @ C @ F) = 42" using lp lc lf sn by simp
next
  fix i assume "i < s"
  then show "className ((P @ C @ F) ! i) = ''day other-month''"
    using p lp by (simp add: nth_append)
next
  fix i assume i: "i < n"
  have e: "(P @ C @ F) ! (s + i) = C ! i" using lp lc i by (simp add: nth_append)
  show "textContent ((P @ C @ F) ! (s + i)) = int i + 1" using c [OF i] e by simp
  show "className ((P @ C @ F) ! (s + i)) \<noteq> ''day other-month''" using c [OF i] e by simp
  show "dataset_date ((P @ C @ F) ! (s + i)) = Some (g (int i + 1))" using c [OF i] e by simp
next
  fix i assume i: "s + n \<le> i \<and> i < 42"
  then have j: "i - (s + n) < 42 - (s + n)" by linarith
  have "(P @ C @ F) ! i = ((P @ C) @ F) ! i" by simp
  also have "\<dots> = F ! (i - length (P @ C))"
    using lp lc i by (subst nth_append) simp
  finally have e: "(P @ C @ F) ! i = F ! (i - (s + n))" using lp lc by simp
  show "className ((P @ C @ F) ! i) = ''day other-month''" using f [OF j] e by simp
  show "textContent ((P @ C @ F) ! i) = int (i - (s + n)) + 1" using f [OF j] e by simp
qed

text \<open>
  Claim C7. Whatever month is on show, \<^verbatim>\<open>generateCalendar()\<close> leaves exactly 42 cells:
  first as many cells of class \<^verbatim>\<open>other-month\<close> as the weekday (Sunday = 0, at most 6) of
  the first day of the month, then one cell for each day of the month, numbered from 1,
  not of class \<^verbatim>\<open>other-month\<close> and carrying its date, then cells of class
  \<^verbatim>\<open>other-month\<close> numbered from 1 up to the 42nd cell. The month has 28 to 31 days.
  The first day is the \<^verbatim>\<open>Date\<close> the code builds, \<^verbatim>\<open>new Date(year, month, 1)\<close>: day 1 of
  the month on show for every year outside 0 to 99 (which \<^verbatim>\<open>Date\<close> reads as 1900 to
  1999, and then the grid is that of the month it reads).
\<close>

theorem generateCalendar_grid:
  fixes cal :: calendar and w :: world
  defines "year \<equiv> getFullYear (currentDate cal)"
    and "month \<equiv> getMonth (currentDate cal)"
  defines "firstDay \<equiv> Date_ymd year month 1"
    and "days \<equiv> days_in_month (if 0 \<le> year \<and> year \<le> 99 then 1900 + year else year) month"
  defines "s \<equiv> nat (getDay firstDay)"
    and "n \<equiv> nat days"
  shows "\<exists>cells w1.
           generateCalendar cal w = (Inr cells, w1) \<and>
           length cells = 42 \<and> s \<le> 6 \<and> 28 \<le> n \<and> n \<le> 31 \<and>
           (\<forall>i<s. className (cells ! i) = ''day other-month'') \<and>
           (\<forall>i<n. textContent (cells ! (s + i)) = int i + 1 \<and>
                   className (cells ! (s + i)) \<noteq> ''day other-month'' \<and>
                   dataset_date (cells ! (s + i)) =
                     Some (formatDate (Date_ymd year month (int i + 1)))) \<and>
           (\<forall>i. s + n \<le> i \<and> i < 42 \<longrightarrow>
                className (cells ! i) = ''day other-month'' \<and>
                textContent (cells ! i) = int (i - (s + n)) + 1) \<and>
           (year < 0 \<or> 99 < year \<longrightarrow>
              getFullYear firstDay = year \<and> getMonth firstDay = month \<and> getDate firstDay = 1)"
proof -
  have mb: "0 \<le> month" "month \<le> 11"
    by (simp_all add: month_def getMonth_def MonthFromTime_bounds)
  have td: "getDate (Date_ymd year (month + 1) 0) = days"
    unfolding days_def by (rule last_day_of_month [OF mb])
  have db: "28 \<le> days" "days \<le> 31"
    by (simp_all add: days_def days_in_month_bounds)
  have sb: "0 \<le> getDay firstDay" "getDay firstDay \<le> 6"
    by (simp_all add: getDay_def WeekDay_bounds)
  define P where "P = map (\<lambda>i. createDayElement (getDate (Date_ymd year month 0) - i) ''other-month'')
                        (rev [0..getDay firstDay - 1])"
  define C where "C = map (current_day cal (clock w)
                  (if next_event w = Delivered then collect_dates (todos (server w)) else [])
                  year month) [1..days]"
  define F where "F = map (\<lambda>i. createDayElement i ''other-month'')
                        [1..42 - (getDay firstDay + days)]"
  have gen: "generateCalendar cal w = (Inr (P @ C @ F), w\<lparr>net := tl (net w)\<rparr>)"
    unfolding generateCalendar_eq year_def [symmetric] month_def [symmetric]
    by (simp add: P_def C_def F_def td firstDay_def)
  have lp: "length P = s" using sb by (simp add: P_def s_def)
  have lc: "length C = n" using db by (simp add: C_def n_def)
  have lf: "length F = 42 - (s + n)" using sb db by (simp add: F_def s_def n_def)
  have sn: "s + n \<le> 42" using sb db by (simp add: s_def n_def)
  have p: "className (P ! i) = ''day other-month''" if "i < s" for i
    using that lp by (simp add: P_def createDayElement_def)
  have c: "textContent (C ! i) = int i + 1 \<and> className (C ! i) \<noteq> ''day other-month'' \<and>
           dataset_date (C ! i) = Some (formatDate (Date_ymd year month (int i + 1)))"
    if "i < n" for i
  proof -
    have "[1..days] ! i = 1 + int i" using that by (intro nth_upto) (simp add: n_def)
    then have "C ! i = current_day cal (clock w)
                  (if next_event w = Delivered then collect_dates (todos (server w)) else [])
                  year month (int i + 1)"
      using that lc by (simp add: C_def add.commute)
    then show ?thesis by (simp add: className_current_day current_day_fields)
  qed
  have f: "className (F ! i) = ''day other-month'' \<and> textContent (F ! i) = int i + 1"
    if "i < 42 - (s + n)" for i
  proof -
    have "[1..42 - (getDay firstDay + days)] ! i = 1 + int i"
      using that sb db by (intro nth_upto) (simp add: s_def n_def)
    then have "F ! i = createDayElement (int i + 1) ''other-month''"
      using that lf by (simp add: F_def add.commute)
    then show ?thesis by (simp add: createDayElement_def)
  qed
  have first: "getFullYear firstDay = year \<and> getMonth firstDay = month \<and> getDate firstDay = 1"
    if "year < 0 \<or> 99 < year"
  proof -
    have y: "(if 0 \<le> year \<and> year \<le> 99 then 1900 + year else year) = year" using that by auto
    have d: "1 \<le> days_in_month (if 0 \<le> year \<and> year \<le> 99 then 1900 + year else year) month"
      using db by (simp add: days_def)
    show ?thesis
      using Date_ymd_in_month [OF mb _ d] y
      by (simp add: firstDay_def getFullYear_def getMonth_def getDate_def)
  qed
  have first': "year < 0 \<or> 99 < year \<longrightarrow>
      getFullYear firstDay = year \<and> getMonth firstDay = month \<and> getDate firstDay = 1"
    using first by blast
  have bounds: "s \<le> 6" "28 \<le> n" "n \<le> 31" using sb db by (simp_all add: s_def n_def)
  note grid = grid_cells [where g = "\<lambda>d. formatDate (Date_ymd year month d)",
      OF lp lc lf sn p c f]
  show ?thesis
    by (rule exI [of _ "P @ C @ F"], rule exI [of _ "w\<lparr>net := tl (net w)\<rparr>"])
       (use gen grid bounds first' in blast)
qed

text \<open>
  February 2024: the first of the month is a Thursday, so four cells of the month before
  come first and day 1 is the fifth cell.
\<close>

lemma Month_2024_02_01: "MonthFromTime 1706745600000 = 1"
  by (simp add: MonthFromTime_def DayWithinYear_def InLeapYear_def Year_2024_02_01 Let_def
        Day_def msPerDay_def DayFromYear_def DaysInYear_def)

lemma Date_2024_02_01: "DateFromTime 1706745600000 = 1"
  by (simp add: DateFromTime_def Month_2024_02_01 DayWithinYear_def InLeapYear_def
        Year_2024_02_01 Day_def msPerDay_def DayFromYear_def DaysInYear_def month_start_def)

lemma first_of_February_2024: "Date_ymd 2024 1 1 = 1706745600000"
  by (simp add: Date_ymd_def MakeDay_def Let_def DayFromYear_def DaysInYear_def month_start_def
        msPerDay_def)

lemma formatDate_2024_02_01: "formatDate 1706745600000 = ''2024-02-01''"
  by (simp add: formatDate_def getFullYear_def getMonth_def getDate_def Year_2024_02_01
        Month_2024_02_01 Date_2024_02_01 String_of_int_def padStart0_def digits_small
        digits_big digit_chars replicate_small)

theorem generateCalendar_grid_witness:
  "\<exists>cells.
     fst (generateCalendar \<lparr>currentDate = 1706745600000, selectedDate = 1706745600000\<rparr>
            example_world) = Inr cells \<and>
     length cells = 42 \<and>
     className (cells ! 0) = ''day other-month'' \<and>
     className (cells ! 1) = ''day other-month'' \<and>
     className (cells ! 2) = ''day other-month'' \<and>
     className (cells ! 3) = ''day other-month'' \<and>
     textContent (cells ! 4) = 1 \<and>
     className (cells ! 4) \<noteq> ''day other-month'' \<and>
     dataset_date (cells ! 4) = Some ''2024-02-01''"
proof -
  let ?cal = "\<lparr>currentDate = 1706745600000, selectedDate = 1706745600000\<rparr>"
  have y: "getFullYear 1706745600000 = 2024"
    by (simp add: getFullYear_def Year_2024_02_01)
  have m: "getMonth 1706745600000 = 1"
    by (simp add: getMonth_def Month_2024_02_01)
  have s: "nat (getDay (Date_ymd 2024 1 1)) = 4"
    by (simp add: first_of_February_2024 getDay_def WeekDay_def Day_def msPerDay_def)
  have n: "days_in_month 2024 1 = 29"
    by (simp add: days_in_month_def leap_flag_def DaysInYear_def)
  from generateCalendar_grid [of ?cal example_world]
  obtain cells w1 where
    g: "generateCalendar ?cal example_world = (Inr cells, w1)" and
    l: "length cells = 42" and
    p: "\<forall>i<4. className (cells ! i) = ''day other-month''" and
    c: "\<forall>i<29. textContent (cells ! (4 + i)) = int i + 1 \<and>
                 className (cells ! (4 + i)) \<noteq> ''day other-month'' \<and>
                 dataset_date (cells ! (4 + i)) = Some (formatDate (Date_ymd 2024 1 (int i + 1)))"
    by (auto simp: y m s n)
  have "textContent (cells ! 4) = 1 \<and> className (cells ! 4) \<noteq> ''day other-month'' \<and>
        dataset_date (cells ! 4) = Some ''2024-02-01''"
    using c [rule_format, of 0]
    by (simp add: first_of_February_2024 formatDate_2024_02_01)
  with g l p show ?thesis by simp
qed

end
